theory Spec2Isabelle
  imports Complex_Main "HOL-Library.Multiset"
begin

section \<open>The in-memory store of server.js\<close>

text \<open>
  The server keeps one global object \<open>db\<close> with five collections (server.js, lines 34-40).
  Every handler reads and mutates it synchronously, so a handler is a function from the
  store, the authenticated principal, the request and the values the runtime supplies
  (a fresh uuid, the clock) to either an error status or a result with the new store.

  Numbers. A JavaScript number is a binary64 value, and every arithmetic operator rounds
  its exact result to the nearest binary64 number, ties to the even significand. The
  embedding computes in the reals and rounds at the same places: \<open>binary64 x\<close> is the
  binary64 number nearest to \<open>x\<close>, and the sum \<open>a + b\<close> of the program is
  \<open>binary64 (a + b)\<close>. The exponent range is taken unbounded (no overflow to \<open>Infinity\<close>,
  no subnormal numbers, no \<open>NaN\<close>), which no amount of money reaches. Comparisons,
  truthiness and the decimal rounding of \<open>toFixed(2)\<close> are as the language defines them on
  the value of the number.

  Dates. \<open>toDate()\<close> stores \<open>Date\<close> objects and \<open>new Date()\<close> reads the clock; both are
  integers here (milliseconds since the epoch), the clock being an argument.

  Validators. The routes run the checks of \<open>express-validator\<close> before the handler and
  answer 400 when one of them fails. The pattern behind \<open>isUUID()\<close> belongs to that
  library, so the handlers take the check as an argument \<open>isUUID\<close>. A field of a payment
  body that a format check looks at is an \<open>input\<close>: missing, given in the right format, or
  malformed.
\<close>

type_synonym number = real
type_synonym uuid = string
type_synonym date = int

datatype status = Draft | Pending | Paid | PartiallyPaid | Overdue | Cancelled

datatype 'a input = Missing | Given 'a | Malformed


record item =
  description :: string
  quantity :: number
  unit_price :: number
  tax_rate :: "number option"

record invoice =
  inv_id :: uuid
  inv_userId :: uuid
  clientId :: uuid
  client_name :: string
  invoice_number :: string
  invoice_date :: date
  due_date :: "date option"
  items :: "item list"
  total_amount :: number
  inv_status :: status
  inv_notes :: "string option"
  currency :: "string option"
  global_tax_rate :: "number option"
  is_recurring :: "bool option"
  recurrence_frequency :: "string option"
  recurrence_interval :: "int option"
  recurrence_end_date :: "date option"
  inv_createdAt :: date
  inv_updatedAt :: date

record payment =
  pay_id :: uuid
  invoiceId :: uuid
  pay_userId :: uuid
  amount :: number
  payment_date :: date
  payment_method :: string
  pay_notes :: "string option"
  pay_createdAt :: date

record client =
  cl_id :: uuid
  cl_userId :: uuid
  cl_name :: string
  cl_email :: string
  cl_phone :: "string option"
  cl_address :: "string option"
  cl_notes :: "string option"
  cl_createdAt :: date
  cl_updatedAt :: date

record user =
  usr_id :: uuid
  usr_name :: string
  usr_email :: string
  passwordHash :: string
  usr_roles :: "string list"
  usr_createdAt :: date
  usr_updatedAt :: date

record settings =
  companyName :: string
  companyAddress :: string
  companyLogoUrl :: string
  defaultCurrency :: string
  defaultTaxRate :: number
  invoiceTemplate :: string

record db =
  users :: "user list"
  user_settings :: "uuid \<rightharpoonup> settings"
  clients :: "client list"
  invoices :: "invoice list"
  payments :: "payment list"

text \<open>\<open>req.user\<close>: the payload of the verified token (lines 52-56, 139).\<close>

record principal =
  pr_id :: uuid
  pr_email :: string
  pr_name :: string
  pr_roles :: "string list"

text \<open>The HTTP statuses the handlers answer with instead of a result.\<close>

datatype error = BadRequest400 | Forbidden403 | NotFound404

subsection \<open>JavaScript helpers\<close>

text \<open>
  \<open>Array.prototype.find\<close>: the first element that satisfies the predicate, if any.
\<close>

fun js_find :: "('a \<Rightarrow> bool) \<Rightarrow> 'a list \<Rightarrow> 'a option" where
  "js_find P [] = None"
| "js_find P (x # xs) = (if P x then Some x else js_find P xs)"

text \<open>
  A handler that obtains an object with \<open>find\<close> and then assigns to its fields changes
  that element of the array in place: the first element satisfying the predicate.
\<close>

fun update_first :: "('a \<Rightarrow> bool) \<Rightarrow> ('a \<Rightarrow> 'a) \<Rightarrow> 'a list \<Rightarrow> 'a list" where
  "update_first P f [] = []"
| "update_first P f (x # xs) = (if P x then f x # xs else x # update_first P f xs)"

text \<open>
  Truthiness of an optional number: \<open>undefined\<close> and \<open>0\<close> are falsy. \<open>a || b\<close> is \<open>a\<close> when
  \<open>a\<close> is truthy and \<open>b\<close> otherwise.
\<close>

fun truthy :: "number option \<Rightarrow> bool" where
  "truthy None = False"
| "truthy (Some r) = (r \<noteq> 0)"

definition js_or :: "number option \<Rightarrow> number option \<Rightarrow> number option" where
  "js_or a b = (if truthy a then a else b)"

subsection \<open>Rounding to binary64\<close>

text \<open>
  \<open>halvings a\<close> and \<open>doublings a\<close> count the steps that bring \<open>a\<close> into the interval from
  1 up to 2, so \<open>exponent a\<close> is the integer \<open>e\<close> with \<open>2^e \<le> a < 2^(e+1)\<close>.
\<close>

function halvings :: "real \<Rightarrow> nat" where
  "halvings x = (if 2 \<le> x then Suc (halvings (x / 2)) else 0)"
  by pat_completeness auto
termination
proof (relation "measure (\<lambda>x. nat \<lceil>x\<rceil>)")
  show "wf (measure (\<lambda>x::real. nat \<lceil>x\<rceil>))" by simp
next
  fix x :: real assume "2 \<le> x"
  then have "x / 2 \<le> x - 1" by simp
  then have "\<lceil>x / 2\<rceil> \<le> \<lceil>x - 1\<rceil>" by (rule ceiling_mono)
  then have "\<lceil>x / 2\<rceil> < \<lceil>x\<rceil>" by simp
  moreover have "0 < \<lceil>x\<rceil>" using \<open>2 \<le> x\<close> by simp
  ultimately show "(x / 2, x) \<in> measure (\<lambda>x. nat \<lceil>x\<rceil>)" by simp
qed

function doublings :: "real \<Rightarrow> nat" where
  "doublings x = (if 0 < x \<and> x < 1 then Suc (doublings (2 * x)) else 0)"
  by pat_completeness auto
termination
proof (relation "measure (\<lambda>x. nat \<lceil>1 / x\<rceil>)")
  show "wf (measure (\<lambda>x::real. nat \<lceil>1 / x\<rceil>))" by simp
next
  fix x :: real assume "0 < x \<and> x < 1"
  then have x: "0 < x" "x < 1" by simp_all
  define y where "y = 1 / x"
  have y: "1 < y" using x by (simp add: y_def)
  have half: "1 / (2 * x) = y / 2" by (simp add: y_def)
  have "\<lceil>y / 2\<rceil> < \<lceil>y\<rceil>"
  proof (cases "2 \<le> y")
    case True
    then have "y / 2 \<le> y - 1" by simp
    then have "\<lceil>y / 2\<rceil> \<le> \<lceil>y - 1\<rceil>" by (rule ceiling_mono)
    then show ?thesis by simp
  next
    case False
    then have "y / 2 \<le> 1" by simp
    then have "\<lceil>y / 2\<rceil> \<le> 1" using ceiling_mono[of "y / 2" 1] by simp
    moreover have "1 < \<lceil>y\<rceil>" using y by (simp add: less_ceiling_iff)
    ultimately show ?thesis by linarith
  qed
  moreover have "0 < \<lceil>y\<rceil>" using y by (simp add: less_ceiling_iff)
  ultimately have "nat \<lceil>1 / (2 * x)\<rceil> < nat \<lceil>1 / x\<rceil>"
    unfolding half by (simp add: y_def)
  then show "(2 * x, x) \<in> measure (\<lambda>x. nat \<lceil>1 / x\<rceil>)" by simp
qed

declare halvings.simps [simp del] doublings.simps [simp del]

definition exponent :: "real \<Rightarrow> int" where
  "exponent a = (if 1 \<le> a then int (halvings a) else - int (doublings a))"

text \<open>The nearest integer, the even one of the two at a tie.\<close>

definition round_even :: "real \<Rightarrow> int" where
  "round_even x =
     (let f = \<lfloor>x\<rfloor>; r = x - of_int f
      in if r < 1 / 2 then f else if 1 / 2 < r then f + 1 else if even f then f else f + 1)"

text \<open>
  The binary64 number nearest to \<open>x\<close>: the significand \<open>\<bar>x\<bar> / 2^(e - 52)\<close> is rounded to an
  integer.
\<close>

definition binary64 :: "real \<Rightarrow> real" where
  "binary64 x =
     (if x = 0 then 0
      else (let u = 2 powi (exponent \<bar>x\<bar> - 52)
            in sgn x * (of_int (round_even (\<bar>x\<bar> / u)) * u)))"

text \<open>
  \<open>x.toFixed(2)\<close> takes the sign off, picks the integer \<open>n\<close> with \<open>n / 100\<close> nearest to the
  magnitude, the larger one at a tie, and puts the sign back; the handlers read the
  decimal it prints with \<open>parseFloat\<close>, which rounds it to binary64, so
  \<open>parseFloat(x.toFixed(2))\<close> is \<open>binary64 (toFixed2 x)\<close>. (From \<open>10^21\<close> on \<open>toFixed\<close>
  prints the number as it is; a binary64 number of that size is an integer, which the
  rounding leaves as it is too.)
\<close>

definition toFixed2 :: "number \<Rightarrow> number" where
  "toFixed2 x =
     (if x < 0 then - (of_int \<lfloor>(- x) * 100 + 1 / 2\<rfloor> / 100)
      else of_int \<lfloor>x * 100 + 1 / 2\<rfloor> / 100)"

text \<open>
  \<open>reduce((sum, p) => sum + p.amount, 0)\<close> (lines 493, 532, 564): the amounts are added
  from left to right, and each addition rounds.
\<close>

definition sumAmounts :: "payment list \<Rightarrow> number" where
  "sumAmounts ps = foldl (\<lambda>sum p. binary64 (sum + amount p)) 0 ps"

section \<open>Invoice totals (lines 380-385 and 420-425)\<close>

text \<open>
  The request's numbers are binary64 values after \<open>JSON.parse\<close>; an absent rate is
  \<open>undefined\<close>, and the validators accept the rate 0.
  \<open>Number(item.tax_rate || invoiceData.global_tax_rate || 0)\<close>:
\<close>

definition effectiveTaxRate64 :: "item \<Rightarrow> number option \<Rightarrow> number" where
  "effectiveTaxRate64 it g =
     (case js_or (js_or (map_option binary64 (tax_rate it)) (map_option binary64 g)) (Some 0) of
        Some r \<Rightarrow> r | None \<Rightarrow> 0)"

text \<open>The body of the \<open>forEach\<close>: one item added to the running \<open>totalAmount\<close>.\<close>

definition addItem64 :: "number option \<Rightarrow> number \<Rightarrow> item \<Rightarrow> number" where
  "addItem64 g running it =
     (let itemSubtotal = binary64 (binary64 (quantity it) * binary64 (unit_price it));
          taxAmount = binary64 (itemSubtotal * binary64 (effectiveTaxRate64 it g / 100))
      in binary64 (running + binary64 (itemSubtotal + taxAmount)))"

text \<open>
  The value stored in \<open>total_amount\<close> (lines 395 and 433):
  \<open>parseFloat(totalAmount.toFixed(2))\<close>.
\<close>

definition invoiceTotal64 :: "item list \<Rightarrow> number option \<Rightarrow> number" where
  "invoiceTotal64 its g = binary64 (toFixed2 (foldl (addItem64 g) 0 its))"

section \<open>Invoice numbers (line 43)\<close>

text \<open>\<open>String(n)\<close> for a natural number: its decimal digits.\<close>

definition digit_char :: "nat \<Rightarrow> char" where
  "digit_char n = ''0123456789'' ! n"

fun string_of_nat :: "nat \<Rightarrow> string" where
  "string_of_nat n =
     (if n < 10 then [digit_char n] else string_of_nat (n div 10) @ [digit_char (n mod 10)])"

declare string_of_nat.simps [simp del]

text \<open>\<open>s.padStart(n, c)\<close> for a one-character pad: nothing is cut when \<open>s\<close> is longer.\<close>

definition padStart :: "nat \<Rightarrow> char \<Rightarrow> string \<Rightarrow> string" where
  "padStart n c s = replicate (n - length s) c @ s"

text \<open>
  \<open>generateInvoiceNumber\<close> reads the clock's year and the current length of
  \<open>db.invoices\<close>.
\<close>

definition generateInvoiceNumber :: "nat \<Rightarrow> db \<Rightarrow> string" where
  "generateInvoiceNumber year d =
     ''INV-'' @ string_of_nat year @ ''-'' @
       padStart 5 (CHR ''0'') (string_of_nat (length (invoices d) + 1))"

section \<open>Invoice handlers\<close>

text \<open>
  \<open>req.body\<close> of \<open>POST /api/invoices\<close> and \<open>PUT /api/invoices/:id\<close>, as the handler sees it
  after the sanitizers (\<open>trim\<close>, \<open>toDate\<close>, \<open>toUpperCase\<close>) have run. The record holds the
  bodies whose fields have the JSON type and the date format the rules ask for (a body
  with a field of another type or format is answered 400 and never reaches the
  handler); the checks on the values of the fields are \<open>validInvoiceBody\<close>. \<open>None\<close> is an
  absent key. \<open>due_date\<close> passes validation when it is absent, falsy (\<open>Some None\<close>) or a
  date. The last six keys are looked at by no validator, but the handlers spread every
  remaining key of the body (\<open>...invoiceData\<close>) into the stored invoice.
\<close>

record invoiceBody =
  b_client_id :: uuid
  b_items :: "item list"
  b_invoice_date :: date
  b_due_date :: "date option option"
  b_status :: status
  b_notes :: "string option"
  b_currency :: "string option"
  b_global_tax_rate :: "number option"
  b_is_recurring :: "bool option"
  b_recurrence_frequency :: "string option"
  b_recurrence_interval :: "int option"
  b_recurrence_end_date :: "date option"
  b_id :: "uuid option"
  b_userId :: "uuid option"
  b_clientId :: "uuid option"
  b_client_name :: "string option"
  b_invoice_number :: "string option"
  b_createdAt :: "date option"

text \<open>\<open>invoiceItemValidation\<close> (lines 313-318).\<close>

definition validRate :: "number option \<Rightarrow> bool" where
  "validRate r = (case r of None \<Rightarrow> True | Some t \<Rightarrow> 0 \<le> t \<and> t \<le> 100)"

definition validItem :: "item \<Rightarrow> bool" where
  "validItem it =
     (description it \<noteq> [] \<and> 0 < quantity it \<and> 0 \<le> unit_price it \<and> validRate (tax_rate it))"

text \<open>
  \<open>invoiceValidationRules\<close> (lines 320-334). The recurrence rules apply when
  \<open>is_recurring\<close> is true.
\<close>

definition validRecurrence :: "invoiceBody \<Rightarrow> bool" where
  "validRecurrence b =
     (if b_is_recurring b = Some True
      then (case b_recurrence_frequency b of None \<Rightarrow> True
            | Some f \<Rightarrow> f \<in> set [''daily'', ''weekly'', ''monthly'', ''yearly'', ''once''])
         \<and> (case b_recurrence_interval b of None \<Rightarrow> True | Some k \<Rightarrow> 1 \<le> k)
      else True)"

definition validInvoiceBody :: "(string \<Rightarrow> bool) \<Rightarrow> invoiceBody \<Rightarrow> bool" where
  "validInvoiceBody isUUID b =
     (isUUID (b_client_id b)
      \<and> (case b_currency b of None \<Rightarrow> True | Some c \<Rightarrow> length c = 3)
      \<and> validRate (b_global_tax_rate b)
      \<and> validRecurrence b
      \<and> 1 \<le> length (b_items b)
      \<and> list_all validItem (b_items b))"

definition ownedClient :: "db \<Rightarrow> principal \<Rightarrow> uuid \<Rightarrow> client option" where
  "ownedClient d u cid = js_find (\<lambda>c. cl_id c = cid \<and> cl_userId c = pr_id u) (clients d)"

definition owns :: "principal \<Rightarrow> uuid \<Rightarrow> invoice \<Rightarrow> bool" where
  "owns u i iv = (inv_id iv = i \<and> inv_userId iv = pr_id u)"

definition orElse :: "'a option \<Rightarrow> 'a \<Rightarrow> 'a" where
  "orElse x y = (case x of Some v \<Rightarrow> v | None \<Rightarrow> y)"

definition keep :: "'a option \<Rightarrow> 'a option \<Rightarrow> 'a option" where
  "keep new old = (case new of Some v \<Rightarrow> Some v | None \<Rightarrow> old)"

text \<open>
  \<open>POST /api/invoices\<close> (lines 375-402). The object literal lists \<open>id\<close>, \<open>userId\<close>,
  \<open>clientId\<close>, \<open>client_name\<close> and \<open>invoice_number\<close> before the spread, so a key of the body
  with one of these names replaces the value; \<open>items\<close>, \<open>total_amount\<close>, \<open>createdAt\<close> and
  \<open>updatedAt\<close> come after it.
\<close>

definition newInvoice :: "db \<Rightarrow> principal \<Rightarrow> invoiceBody \<Rightarrow> client \<Rightarrow> uuid \<Rightarrow> date \<Rightarrow> nat \<Rightarrow> invoice" where
  "newInvoice d u b c fresh now year =
     \<lparr> inv_id = orElse (b_id b) fresh,
       inv_userId = orElse (b_userId b) (pr_id u),
       clientId = orElse (b_clientId b) (b_client_id b),
       client_name = orElse (b_client_name b) (cl_name c),
       invoice_number = orElse (b_invoice_number b) (generateInvoiceNumber year d),
       invoice_date = b_invoice_date b,
       due_date = (case b_due_date b of Some v \<Rightarrow> v | None \<Rightarrow> None),
       items = b_items b,
       total_amount = invoiceTotal64 (b_items b) (b_global_tax_rate b),
       inv_status = b_status b,
       inv_notes = b_notes b,
       currency = b_currency b,
       global_tax_rate = b_global_tax_rate b,
       is_recurring = b_is_recurring b,
       recurrence_frequency = b_recurrence_frequency b,
       recurrence_interval = b_recurrence_interval b,
       recurrence_end_date = b_recurrence_end_date b,
       inv_createdAt = now,
       inv_updatedAt = now \<rparr>"

definition postInvoice ::
  "(string \<Rightarrow> bool) \<Rightarrow> db \<Rightarrow> principal \<Rightarrow> invoiceBody \<Rightarrow> uuid \<Rightarrow> date \<Rightarrow> nat
     \<Rightarrow> error + (db \<times> invoice)" where
  "postInvoice isUUID d u b fresh now year =
     (if \<not> validInvoiceBody isUUID b then Inl BadRequest400
      else case ownedClient d u (b_client_id b) of
        None \<Rightarrow> Inl NotFound404
      | Some c \<Rightarrow>
          (let iv = newInvoice d u b c fresh now year
           in Inr (d\<lparr>invoices := invoices d @ [iv]\<rparr>, iv)))"

text \<open>
  \<open>PUT /api/invoices/:id\<close> (lines 412-439): \<open>param('id').isUUID()\<close> and the rules for the
  body, then \<open>findIndex\<close>, then the element at that index is replaced by the old invoice
  overlaid with the body. Keys absent from the body keep their old value.
\<close>

definition updatedInvoice :: "invoice \<Rightarrow> invoiceBody \<Rightarrow> client \<Rightarrow> date \<Rightarrow> invoice" where
  "updatedInvoice old b c now =
     \<lparr> inv_id = orElse (b_id b) (inv_id old),
       inv_userId = orElse (b_userId b) (inv_userId old),
       clientId = orElse (b_clientId b) (b_client_id b),
       client_name = orElse (b_client_name b) (cl_name c),
       invoice_number = orElse (b_invoice_number b) (invoice_number old),
       invoice_date = b_invoice_date b,
       due_date = (case b_due_date b of Some v \<Rightarrow> v | None \<Rightarrow> due_date old),
       items = b_items b,
       total_amount = invoiceTotal64 (b_items b) (b_global_tax_rate b),
       inv_status = b_status b,
       inv_notes = keep (b_notes b) (inv_notes old),
       currency = keep (b_currency b) (currency old),
       global_tax_rate = keep (b_global_tax_rate b) (global_tax_rate old),
       is_recurring = keep (b_is_recurring b) (is_recurring old),
       recurrence_frequency = keep (b_recurrence_frequency b) (recurrence_frequency old),
       recurrence_interval = keep (b_recurrence_interval b) (recurrence_interval old),
       recurrence_end_date = keep (b_recurrence_end_date b) (recurrence_end_date old),
       inv_createdAt = orElse (b_createdAt b) (inv_createdAt old),
       inv_updatedAt = now \<rparr>"

definition putInvoice ::
  "(string \<Rightarrow> bool) \<Rightarrow> db \<Rightarrow> principal \<Rightarrow> uuid \<Rightarrow> invoiceBody \<Rightarrow> date
     \<Rightarrow> error + (db \<times> invoice)" where
  "putInvoice isUUID d u i b now =
     (if \<not> isUUID i then Inl BadRequest400
      else if \<not> validInvoiceBody isUUID b then Inl BadRequest400
      else case js_find (owns u i) (invoices d) of
        None \<Rightarrow> Inl NotFound404
      | Some old \<Rightarrow>
          (case ownedClient d u (b_client_id b) of
             None \<Rightarrow> Inl NotFound404
           | Some c \<Rightarrow>
               (let iv = updatedInvoice old b c now
                in Inr (d\<lparr>invoices := update_first (owns u i) (\<lambda>_. iv) (invoices d)\<rparr>, iv))))"

text \<open>
  \<open>DELETE /api/invoices/:id\<close> (lines 441-450), after \<open>param('id').isUUID()\<close>. When nothing
  was removed the handler answers 404 before it touches the payments; the array it has
  assigned to \<open>db.invoices\<close> by then has the elements it had before. Line 447 compares the
  \<open>invoiceId\<close> of a payment with the requested id and nothing else.
\<close>

definition deleteInvoice :: "(string \<Rightarrow> bool) \<Rightarrow> db \<Rightarrow> principal \<Rightarrow> uuid \<Rightarrow> error + db" where
  "deleteInvoice isUUID d u i =
     (if \<not> isUUID i then Inl BadRequest400
      else
        (let remaining = filter (\<lambda>iv. \<not> owns u i iv) (invoices d)
         in if length remaining = length (invoices d) then Inl NotFound404
            else Inr (d\<lparr>invoices := remaining,
                        payments := filter (\<lambda>p. invoiceId p \<noteq> i) (payments d)\<rparr>)))"

section \<open>Payments\<close>

text \<open>
  \<open>req.body\<close> of \<open>POST /api/invoices/:id/payments\<close>. \<open>amount\<close> is \<open>Given a\<close> when
  \<open>isFloat\<close> accepts it (\<open>a\<close> being the decimal it reads), \<open>payment_date\<close> is \<open>Given t\<close> when
  \<open>isISO8601\<close> accepts it (\<open>t\<close> being the instant \<open>toDate\<close> makes of it), \<open>payment_method\<close>
  is the string that \<open>trim\<close> leaves (empty for an absent key), and \<open>notes\<close> is \<open>Missing\<close>
  when the key is absent or falsy, \<open>Given s\<close> for a string and \<open>Malformed\<close> for anything
  else.
\<close>

record paymentBody =
  pb_amount :: "number input"
  pb_payment_date :: "date input"
  pb_payment_method :: string
  pb_notes :: "string input"

text \<open>\<open>paymentValidationRules\<close> (lines 468-473).\<close>

definition validPaymentBody :: "paymentBody \<Rightarrow> bool" where
  "validPaymentBody b =
     ((case pb_amount b of Given a \<Rightarrow> 0 < a | _ \<Rightarrow> False)
      \<and> (case pb_payment_date b of Given t \<Rightarrow> True | _ \<Rightarrow> False)
      \<and> pb_payment_method b \<noteq> []
      \<and> pb_notes b \<noteq> Malformed)"

text \<open>
  What the handler reads from a body that has passed the rules: \<open>parseFloat(amount)\<close>,
  the date, the notes (\<open>None\<close> for an absent or falsy value).
\<close>

definition parsedAmount :: "number input \<Rightarrow> number" where
  "parsedAmount x = (case x of Given a \<Rightarrow> binary64 a | _ \<Rightarrow> 0)"

definition parsedDate :: "date input \<Rightarrow> date" where
  "parsedDate x = (case x of Given t \<Rightarrow> t | _ \<Rightarrow> 0)"

definition parsedNotes :: "string input \<Rightarrow> string option" where
  "parsedNotes x = (case x of Given s \<Rightarrow> Some s | _ \<Rightarrow> None)"

text \<open>Lines 493-498: the status the invoice has after the payments have been summed.\<close>

definition statusAfter :: "number \<Rightarrow> number \<Rightarrow> status \<Rightarrow> status" where
  "statusAfter totalPaid owed st =
     (if owed \<le> totalPaid then Paid else if 0 < totalPaid then PartiallyPaid else st)"

definition totalPaidFor :: "uuid \<Rightarrow> payment list \<Rightarrow> number" where
  "totalPaidFor i ps = sumAmounts (filter (\<lambda>p. invoiceId p = i) ps)"

text \<open>
  \<open>POST /api/invoices/:id/payments\<close> (lines 475-503), after \<open>param('id').isUUID()\<close> and the
  rules for the body. The invoice is the object \<open>find\<close> returned; its \<open>status\<close> and
  \<open>updatedAt\<close> are assigned in place.
\<close>

definition postPayment ::
  "(string \<Rightarrow> bool) \<Rightarrow> db \<Rightarrow> principal \<Rightarrow> uuid \<Rightarrow> paymentBody \<Rightarrow> uuid \<Rightarrow> date
     \<Rightarrow> error + (db \<times> payment)" where
  "postPayment isUUID d u i b fresh now =
     (if \<not> isUUID i then Inl BadRequest400
      else if \<not> validPaymentBody b then Inl BadRequest400
      else case js_find (owns u i) (invoices d) of
        None \<Rightarrow> Inl NotFound404
      | Some invoice \<Rightarrow>
          (let newPayment =
                 \<lparr> pay_id = fresh, invoiceId = i, pay_userId = pr_id u,
                   amount = parsedAmount (pb_amount b),
                   payment_date = parsedDate (pb_payment_date b),
                   payment_method = pb_payment_method b,
                   pay_notes = parsedNotes (pb_notes b),
                   pay_createdAt = now \<rparr>;
               ps = payments d @ [newPayment];
               totalPaid = totalPaidFor i ps
           in Inr (d\<lparr>payments := ps,
                      invoices :=
                        update_first (owns u i)
                          (\<lambda>iv. iv\<lparr>inv_status :=
                                        statusAfter totalPaid (total_amount iv) (inv_status iv),
                                      inv_updatedAt := now\<rparr>)
                          (invoices d)\<rparr>,
                   newPayment)))"

text \<open>\<open>GET /api/invoices/:id/payments\<close> (lines 505-512).\<close>

definition getPayments ::
  "(string \<Rightarrow> bool) \<Rightarrow> db \<Rightarrow> principal \<Rightarrow> uuid \<Rightarrow> error + payment list" where
  "getPayments isUUID d u i =
     (if \<not> isUUID i then Inl BadRequest400
      else case js_find (owns u i) (invoices d) of
        None \<Rightarrow> Inl NotFound404
      | Some _ \<Rightarrow> Inr (filter (\<lambda>p. invoiceId p = i \<and> pay_userId p = pr_id u) (payments d)))"

section \<open>Reports\<close>

text \<open>
  \<open>GET /api/reports/summary\<close> (lines 521-554). \<open>now\<close> is the clock read of line 523.
  \<open>thirtyDaysAgo\<close> (line 524) is a second clock read with the day of the month of \<open>now\<close>
  less 30 set on it by the runtime's local calendar: 30 days of 24 hours before \<open>now\<close>
  up to the time between the two reads and a change of the local clock (daylight
  saving) in between. It is an argument like the clock.
\<close>

record summaryReport =
  total_outstanding :: number
  total_overdue :: number
  paid_last_30_days :: number

definition paymentsFor :: "db \<Rightarrow> invoice \<Rightarrow> payment list" where
  "paymentsFor d iv = filter (\<lambda>p. invoiceId p = inv_id iv) (payments d)"

text \<open>Lines 532-533.\<close>

definition balanceDue :: "db \<Rightarrow> invoice \<Rightarrow> number" where
  "balanceDue d iv = binary64 (total_amount iv - sumAmounts (paymentsFor d iv))"

text \<open>The condition of line 535.\<close>

definition isOutstanding :: "db \<Rightarrow> invoice \<Rightarrow> bool" where
  "isOutstanding d iv =
     (0 < balanceDue d iv \<and>
      (inv_status iv = Pending \<or> inv_status iv = PartiallyPaid \<or> inv_status iv = Overdue))"

text \<open>The condition of line 537.\<close>

definition isOverdue :: "date \<Rightarrow> invoice \<Rightarrow> bool" where
  "isOverdue now iv =
     ((case due_date iv of None \<Rightarrow> False | Some dd \<Rightarrow> dd < now) \<and>
      inv_status iv \<noteq> Paid \<and> inv_status iv \<noteq> Cancelled)"

text \<open>The inner \<open>forEach\<close> of lines 542-546.\<close>

definition addRecent :: "date \<Rightarrow> number \<Rightarrow> payment \<Rightarrow> number" where
  "addRecent thirtyDaysAgo paidLast30Days p =
     (if thirtyDaysAgo \<le> payment_date p then binary64 (paidLast30Days + amount p)
      else paidLast30Days)"

text \<open>The body of the outer \<open>forEach\<close>: the three running totals after one invoice.\<close>

definition summaryStep ::
  "db \<Rightarrow> date \<Rightarrow> date \<Rightarrow> number \<times> number \<times> number \<Rightarrow> invoice \<Rightarrow> number \<times> number \<times> number" where
  "summaryStep d now thirtyDaysAgo acc iv =
     (case acc of (totalOutstanding, totalOverdue, paidLast30Days) \<Rightarrow>
        (if isOutstanding d iv then binary64 (totalOutstanding + balanceDue d iv)
         else totalOutstanding,
         if isOutstanding d iv \<and> isOverdue now iv then binary64 (totalOverdue + balanceDue d iv)
         else totalOverdue,
         foldl (addRecent thirtyDaysAgo) paidLast30Days (paymentsFor d iv)))"

definition userInvoices :: "db \<Rightarrow> principal \<Rightarrow> invoice list" where
  "userInvoices d u = filter (\<lambda>iv. inv_userId iv = pr_id u) (invoices d)"

definition getSummary :: "db \<Rightarrow> principal \<Rightarrow> date \<Rightarrow> date \<Rightarrow> summaryReport" where
  "getSummary d u now thirtyDaysAgo =
     (case foldl (summaryStep d now thirtyDaysAgo) (0, 0, 0) (userInvoices d u) of
        (totalOutstanding, totalOverdue, paidLast30Days) \<Rightarrow>
          \<lparr> total_outstanding = binary64 (toFixed2 totalOutstanding),
            total_overdue = binary64 (toFixed2 totalOverdue),
            paid_last_30_days = binary64 (toFixed2 paidLast30Days) \<rparr>)"








section \<open>A small store\<close>

text \<open>
  For the examples \<open>isUUID\<close> is the canonical form of a version 4 UUID, which every
  release of the validation library accepts, and the identifiers that pass through the
  check have that form.
\<close>

definition hexDigit :: "char \<Rightarrow> bool" where
  "hexDigit c = (c \<in> set ''0123456789abcdefABCDEF'')"

definition isUUIDv4 :: "string \<Rightarrow> bool" where
  "isUUIDv4 s =
     (length s = 36
      \<and> list_all hexDigit (take 8 s) \<and> s ! 8 = CHR ''-''
      \<and> list_all hexDigit (take 4 (drop 9 s)) \<and> s ! 13 = CHR ''-''
      \<and> s ! 14 = CHR ''4'' \<and> list_all hexDigit (take 3 (drop 15 s)) \<and> s ! 18 = CHR ''-''
      \<and> s ! 19 \<in> set ''89abAB'' \<and> list_all hexDigit (take 3 (drop 20 s)) \<and> s ! 23 = CHR ''-''
      \<and> list_all hexDigit (drop 24 s))"

abbreviation acme_id :: uuid where "acme_id \<equiv> ''c1a00000-0000-4000-8000-000000000000''"
abbreviation globex_id :: uuid where "globex_id \<equiv> ''c2a00000-0000-4000-8000-000000000000''"
abbreviation initech_id :: uuid where "initech_id \<equiv> ''c3a00000-0000-4000-8000-000000000000''"
abbreviation hooli_id :: uuid where "hooli_id \<equiv> ''c4a00000-0000-4000-8000-000000000000''"
abbreviation invA_id :: uuid where "invA_id \<equiv> ''1a000000-0000-4000-8000-000000000000''"
abbreviation invB_id :: uuid where "invB_id \<equiv> ''2b000000-0000-4000-8000-000000000000''"

text \<open>
  One user with two clients and two invoices: a cancelled invoice of 270.00 without
  payments and a pending one of 130.00 with one payment of 30.00. Times are in
  milliseconds; \<open>noon\<close> is 2025-11-03T12:00:00Z.
\<close>

definition noon :: date where
  "noon = 1762171200000"

definition day :: int where
  "day = 86400000"

definition alice :: principal where
  "alice = \<lparr> pr_id = ''u1'', pr_email = ''alice@example.com'', pr_name = ''Alice'',
             pr_roles = [''user''] \<rparr>"

definition aliceUser :: user where
  "aliceUser = \<lparr> usr_id = ''u1'', usr_name = ''Alice'', usr_email = ''alice@example.com'',
                 passwordHash = ''$2a$10$hash'', usr_roles = [''user''],
                 usr_createdAt = 0, usr_updatedAt = 0 \<rparr>"

definition aliceSettings :: settings where
  "aliceSettings = \<lparr> companyName = ''Alice's Company'', companyAddress = [],
                     companyLogoUrl = [], defaultCurrency = ''USD'', defaultTaxRate = 0,
                     invoiceTemplate = ''default'' \<rparr>"

definition acme :: client where
  "acme = \<lparr> cl_id = acme_id, cl_userId = ''u1'', cl_name = ''Acme'',
            cl_email = ''billing@acme.test'', cl_phone = None, cl_address = None,
            cl_notes = None, cl_createdAt = 0, cl_updatedAt = 0 \<rparr>"

definition globex :: client where
  "globex = \<lparr> cl_id = globex_id, cl_userId = ''u1'', cl_name = ''Globex'',
              cl_email = ''pay@globex.test'', cl_phone = None, cl_address = None,
              cl_notes = None, cl_createdAt = 0, cl_updatedAt = 0 \<rparr>"

definition widgets :: "item list" where
  "widgets = [\<lparr> description = ''Widgets'', quantity = 2, unit_price = 100, tax_rate = Some 10 \<rparr>,
              \<lparr> description = ''Manual'', quantity = 1, unit_price = 50, tax_rate = None \<rparr>]"

definition service :: "item list" where
  "service = [\<lparr> description = ''Service'', quantity = 1, unit_price = 130, tax_rate = None \<rparr>]"

definition invA :: invoice where
  "invA = \<lparr> inv_id = invA_id, inv_userId = ''u1'', clientId = acme_id, client_name = ''Acme'',
            invoice_number = ''INV-2025-00001'', invoice_date = noon - 40 * day,
            due_date = Some (noon - 10 * day), items = widgets, total_amount = 270,
            inv_status = Cancelled, inv_notes = None, currency = Some ''USD'',
            global_tax_rate = None, is_recurring = None, recurrence_frequency = None,
            recurrence_interval = None, recurrence_end_date = None,
            inv_createdAt = noon - 40 * day, inv_updatedAt = noon - 40 * day \<rparr>"

definition invB :: invoice where
  "invB = \<lparr> inv_id = invB_id, inv_userId = ''u1'', clientId = globex_id, client_name = ''Globex'',
            invoice_number = ''INV-2025-00002'', invoice_date = noon - 20 * day,
            due_date = Some (noon - 5 * day), items = service, total_amount = 130,
            inv_status = Pending, inv_notes = None, currency = Some ''USD'',
            global_tax_rate = None, is_recurring = None, recurrence_frequency = None,
            recurrence_interval = None, recurrence_end_date = None,
            inv_createdAt = noon - 20 * day, inv_updatedAt = noon - 20 * day \<rparr>"

definition payB :: payment where
  "payB = \<lparr> pay_id = ''p1'', invoiceId = invB_id, pay_userId = ''u1'', amount = 30,
            payment_date = noon - 2 * day, payment_method = ''card'', pay_notes = None,
            pay_createdAt = noon - 2 * day \<rparr>"

definition demo :: db where
  "demo = \<lparr> users = [aliceUser], user_settings = [''u1'' \<mapsto> aliceSettings],
            clients = [acme, globex], invoices = [invA, invB], payments = [payB] \<rparr>"

definition pay100 :: paymentBody where
  "pay100 = \<lparr> pb_amount = Given 100, pb_payment_date = Given noon,
              pb_payment_method = ''transfer'', pb_notes = Missing \<rparr>"

text \<open>
  A second user of the same server, with a client of his own, and a request body of his
  that names the id of Alice's pending invoice under the key \<open>id\<close>.
\<close>

definition bob :: principal where
  "bob = \<lparr> pr_id = ''u2'', pr_email = ''bob@example.com'', pr_name = ''Bob'',
           pr_roles = [''user''] \<rparr>"

definition bobUser :: user where
  "bobUser = \<lparr> usr_id = ''u2'', usr_name = ''Bob'', usr_email = ''bob@example.com'',
               passwordHash = ''$2a$10$hash'', usr_roles = [''user''],
               usr_createdAt = 0, usr_updatedAt = 0 \<rparr>"

definition bobSettings :: settings where
  "bobSettings = \<lparr> companyName = ''Bob's Company'', companyAddress = [],
                   companyLogoUrl = [], defaultCurrency = ''USD'', defaultTaxRate = 0,
                   invoiceTemplate = ''default'' \<rparr>"

definition hooli :: client where
  "hooli = \<lparr> cl_id = hooli_id, cl_userId = ''u2'', cl_name = ''Hooli'',
             cl_email = ''ap@hooli.test'', cl_phone = None, cl_address = None,
             cl_notes = None, cl_createdAt = 0, cl_updatedAt = 0 \<rparr>"

definition shared :: db where
  "shared = \<lparr> users = [aliceUser, bobUser],
              user_settings = [''u1'' \<mapsto> aliceSettings, ''u2'' \<mapsto> bobSettings],
              clients = [acme, globex, hooli], invoices = [invA, invB], payments = [payB] \<rparr>"

definition bobBody :: invoiceBody where
  "bobBody =
     \<lparr> b_client_id = hooli_id, b_items = service, b_invoice_date = noon,
       b_due_date = None, b_status = Draft, b_notes = None, b_currency = None,
       b_global_tax_rate = None, b_is_recurring = None, b_recurrence_frequency = None,
       b_recurrence_interval = None, b_recurrence_end_date = None, b_id = Some invB_id,
       b_userId = None, b_clientId = None, b_client_name = None, b_invoice_number = None,
       b_createdAt = None \<rparr>"


definition mkInvoice :: "uuid \<Rightarrow> client \<Rightarrow> string \<Rightarrow> number \<Rightarrow> status \<Rightarrow> invoice" where
  "mkInvoice i c n t st =
     \<lparr> inv_id = i, inv_userId = cl_userId c, clientId = cl_id c, client_name = cl_name c,
       invoice_number = n, invoice_date = noon - 20 * day, due_date = None,
       items = [\<lparr> description = ''Work'', quantity = 1, unit_price = t, tax_rate = None \<rparr>],
       total_amount = t, inv_status = st, inv_notes = None, currency = None,
       global_tax_rate = None, is_recurring = None, recurrence_frequency = None,
       recurrence_interval = None, recurrence_end_date = None,
       inv_createdAt = noon - 20 * day, inv_updatedAt = noon - 20 * day \<rparr>"

definition mkPayment :: "uuid \<Rightarrow> uuid \<Rightarrow> number \<Rightarrow> payment" where
  "mkPayment k i a =
     \<lparr> pay_id = k, invoiceId = i, pay_userId = ''u1'', amount = a,
       payment_date = noon - day, payment_method = ''card'', pay_notes = None,
       pay_createdAt = noon - day \<rparr>"




text \<open>
  A store with a pending invoice of 100.14 on which 50.07 and 25.03 have been paid, and
  the body of a payment of the remaining 25.04.
\<close>

abbreviation cents_id :: uuid where "cents_id \<equiv> ''3c000000-0000-4000-8000-000000000000''"



text \<open>
  Two request bodies for Acme: an order of the widgets without a global rate, and a
  tax-exempt book (item rate 0) on an invoice whose global rate is 10.
\<close>

definition orderBody :: invoiceBody where
  "orderBody =
     \<lparr> b_client_id = acme_id, b_items = widgets, b_invoice_date = noon,
       b_due_date = None, b_status = Pending, b_notes = None, b_currency = Some ''USD'',
       b_global_tax_rate = None, b_is_recurring = None, b_recurrence_frequency = None,
       b_recurrence_interval = None, b_recurrence_end_date = None, b_id = None,
       b_userId = None, b_clientId = None, b_client_name = None, b_invoice_number = None,
       b_createdAt = None \<rparr>"

definition exemptBody :: invoiceBody where
  "exemptBody =
     orderBody\<lparr> b_items := [\<lparr> description = ''Book'', quantity = 1, unit_price = 100,
                                tax_rate = Some 0 \<rparr>],
                b_global_tax_rate := Some 10 \<rparr>"

text \<open>
  A store with Alice's clients and no invoice yet, and three identifiers that
  \<open>uuidv4()\<close> hands out.
\<close>

definition fresh_store :: db where
  "fresh_store = \<lparr> users = [aliceUser], user_settings = [''u1'' \<mapsto> aliceSettings],
                   clients = [acme, globex], invoices = [], payments = [] \<rparr>"

abbreviation first_id :: uuid where "first_id \<equiv> ''a0000000-0000-4000-8000-000000000000''"
abbreviation second_id :: uuid where "second_id \<equiv> ''b0000000-0000-4000-8000-000000000000''"
abbreviation third_id :: uuid where "third_id \<equiv> ''d0000000-0000-4000-8000-000000000000''"

text \<open>Three items: 0.05 taxed at 10 percent, 0.10 and 0.20 untaxed.\<close>

definition nickel :: item where
  "nickel = \<lparr> description = ''Sticker'', quantity = 1, unit_price = 5 / 100, tax_rate = Some 10 \<rparr>"

definition dime :: item where
  "dime = \<lparr> description = ''Pin'', quantity = 1, unit_price = 10 / 100, tax_rate = None \<rparr>"

definition twenty :: item where
  "twenty = \<lparr> description = ''Badge'', quantity = 1, unit_price = 20 / 100, tax_rate = None \<rparr>"

text \<open>
  An ordinary invoice: two spare parts at 86.03 taxed at 5 percent, labour at 78.62 taxed
  at 10 percent, delivery at 85.07 untaxed.
\<close>

definition spares :: item where
  "spares = \<lparr> description = ''Spare parts'', quantity = 2, unit_price = 8603 / 100, tax_rate = Some 5 \<rparr>"

definition labour :: item where
  "labour = \<lparr> description = ''Labour'', quantity = 1, unit_price = 7862 / 100, tax_rate = Some 10 \<rparr>"

definition delivery :: item where
  "delivery = \<lparr> description = ''Delivery'', quantity = 1, unit_price = 8507 / 100, tax_rate = None \<rparr>"

section \<open>The formulas in the words of the specification\<close>

text \<open>
  Section 4.4 of the specification: \<open>paid_last_30_days\<close> is the sum of the payment
  amounts, across all of the user's invoices, whose payment date lies between the lower
  bound thirty days back and the current time, both included.
\<close>

definition spec_paid_last_30_days :: "db \<Rightarrow> principal \<Rightarrow> date \<Rightarrow> date \<Rightarrow> number" where
  "spec_paid_last_30_days d u now thirtyDaysAgo =
     sum_list (map amount
       (filter (\<lambda>p. thirtyDaysAgo \<le> payment_date p \<and> payment_date p \<le> now)
          (concat (map (paymentsFor d) (userInvoices d u)))))"



text \<open>
  Section 4.1 of the specification: the effective tax rate is the item's rate if present,
  else the invoice's global rate if present, else 0; the total is the sum of
  \<open>quantity * unit_price * (1 + rate / 100)\<close>, rounded once.
\<close>

definition spec_effective_tax_rate :: "item \<Rightarrow> number option \<Rightarrow> number" where
  "spec_effective_tax_rate it g =
     (case tax_rate it of Some r \<Rightarrow> r | None \<Rightarrow> (case g of Some r \<Rightarrow> r | None \<Rightarrow> 0))"

definition spec_total :: "item list \<Rightarrow> number option \<Rightarrow> number" where
  "spec_total its g =
     toFixed2 (sum_list (map (\<lambda>it. quantity it * unit_price it *
                                   (1 + spec_effective_tax_rate it g / 100)) its))"

subsection \<open>The loop of the total in exact arithmetic\<close>

text \<open>
  The loop of lines 380-385 with the operators read as the operations of the reals,
  nothing rounded before \<open>toFixed(2)\<close>: what the total would be without the rounding of
  binary64. It is compared with the formula of the specification and with the total the
  server stores.
\<close>

definition effectiveTaxRate :: "item \<Rightarrow> number option \<Rightarrow> number" where
  "effectiveTaxRate it g =
     (case js_or (js_or (tax_rate it) g) (Some 0) of Some r \<Rightarrow> r | None \<Rightarrow> 0)"

definition addItem :: "number option \<Rightarrow> number \<Rightarrow> item \<Rightarrow> number" where
  "addItem g running it =
     (let itemSubtotal = quantity it * unit_price it;
          taxAmount = itemSubtotal * (effectiveTaxRate it g / 100)
      in running + (itemSubtotal + taxAmount))"

definition totalAmount :: "item list \<Rightarrow> number option \<Rightarrow> number" where
  "totalAmount its g = foldl (addItem g) 0 its"

definition invoiceTotal :: "item list \<Rightarrow> number option \<Rightarrow> number" where
  "invoiceTotal its g = toFixed2 (totalAmount its g)"

section \<open>Properties of the helpers\<close>

lemma js_find_Some: "js_find P xs = Some x \<Longrightarrow> P x \<and> x \<in> set xs"
  by (induction xs) (auto split: if_splits)

lemma js_find_None: "js_find P xs = None \<longleftrightarrow> filter P xs = []"
  by (induction xs) auto

lemma js_find_update_first:
  "js_find P xs = Some x \<Longrightarrow> P (f x) \<Longrightarrow> js_find P (update_first P f xs) = Some (f x)"
  by (induction xs) (auto split: if_splits)

lemma update_first_list_update:
  "js_find P xs = Some x \<Longrightarrow>
     \<exists>k < length xs. xs ! k = x \<and> update_first P f xs = xs[k := f x]"
proof (induction xs)
  case Nil
  then show ?case by simp
next
  case (Cons a xs)
  show ?case
  proof (cases "P a")
    case True
    with Cons.prems have "a = x" by simp
    with True show ?thesis by (intro exI[of _ 0]) simp
  next
    case False
    with Cons.prems have "js_find P xs = Some x" by simp
    from Cons.IH[OF this] obtain k
      where "k < length xs" "xs ! k = x" "update_first P f xs = xs[k := f x]"
      by blast
    with False show ?thesis by (intro exI[of _ "Suc k"]) simp
  qed
qed


section \<open>Rounding to binary64\<close>

lemma halvings_step: "2 \<le> x \<Longrightarrow> halvings x = Suc (halvings (x / 2))"
  by (subst halvings.simps) simp
lemma halvings_stop: "x < 2 \<Longrightarrow> halvings x = 0"
  by (subst halvings.simps) simp
lemma doublings_step: "0 < x \<Longrightarrow> x < 1 \<Longrightarrow> doublings x = Suc (doublings (2 * x))"
  by (subst doublings.simps) simp
lemma doublings_stop: "1 \<le> x \<Longrightarrow> doublings x = 0"
  by (subst doublings.simps) simp

lemmas binary64_eval = binary64_def exponent_def round_even_def halvings_step halvings_stop doublings_step
  doublings_stop Let_def

lemma halvings_bounds: "1 \<le> a \<Longrightarrow> 2 ^ halvings a \<le> a \<and> a < 2 ^ Suc (halvings a)"
proof (induction a rule: halvings.induct)
  case (1 x)
  show ?case
  proof (cases "2 \<le> x")
    case True
    then have "1 \<le> x / 2" by simp
    from "1.IH"[OF True this] True show ?thesis by (simp add: halvings_step)
  next
    case False
    with "1.prems" show ?thesis by (simp add: halvings_stop)
  qed
qed

lemma doublings_bounds:
  "0 < a \<Longrightarrow> a < 1 \<Longrightarrow> 1 \<le> a * 2 ^ doublings a \<and> a * 2 ^ doublings a < 2"
proof (induction a rule: doublings.induct)
  case (1 x)
  show ?case
  proof (cases "2 * x < 1")
    case True
    with "1.prems" have "0 < x \<and> x < 1" "0 < 2 * x" by simp_all
    from "1.IH"[OF this(1) this(2) True] "1.prems" show ?thesis
      by (simp add: doublings_step mult.assoc)
  next
    case False
    then have "doublings (2 * x) = 0" by (simp add: doublings_stop)
    with "1.prems" False show ?thesis by (simp add: doublings_step)
  qed
qed

lemma exponent_bounds:
  assumes "0 < a"
  shows "2 powi exponent a \<le> a \<and> a < 2 powi (exponent a + 1)"
proof (cases "1 \<le> a")
  case True
  from halvings_bounds[OF this] True show ?thesis
    by (simp add: exponent_def power_int_add)
next
  case False
  with assms have a: "0 < a" "a < 1" by simp_all
  let ?n = "doublings a"
  from doublings_bounds[OF a] have b: "1 \<le> a * 2 ^ ?n" "a * 2 ^ ?n < 2" by simp_all
  have p: "(2::real) powi (- int ?n) = 1 / 2 ^ ?n"
    by (simp add: power_int_minus divide_inverse)
  have "2 powi (- int ?n) \<le> a" using b(1) by (simp add: p field_simps)
  moreover have "a < 2 powi (- int ?n + 1)"
  proof -
    have "(2::real) powi (- int ?n + 1) * 2 ^ ?n = 2"
      using power_int_add[of "2::real" "- int ?n" 1] by (simp add: p)
    with b(2) have "a * 2 ^ ?n < 2 powi (- int ?n + 1) * 2 ^ ?n" by (simp only:)
    then show ?thesis by (rule mult_right_less_imp_less) simp
  qed
  ultimately show ?thesis using False by (simp add: exponent_def)
qed

lemma exponent_unique:
  assumes "2 powi e \<le> a" "a < 2 powi (e + 1)"
  shows "exponent a = e"
proof -
  have pos: "0 < a" using assms(1) by (smt (verit) zero_less_power_int zero_less_numeral)
  from exponent_bounds[OF pos] have b: "2 powi exponent a \<le> a" "a < 2 powi (exponent a + 1)"
    by simp_all
  have "(2::real) powi e < 2 powi (exponent a + 1)" using assms(1) b(2) by simp
  then have 1: "e < exponent a + 1"
    using power_int_increasing[of "exponent a + 1" e "2::real"] by (cases "e < exponent a + 1") auto
  have "(2::real) powi exponent a < 2 powi (e + 1)" using assms(2) b(1) by simp
  then have 2: "exponent a < e + 1"
    using power_int_increasing[of "e + 1" "exponent a" "2::real"] by (cases "exponent a < e + 1") auto
  from 1 2 show ?thesis by simp
qed

lemma round_even_of_int: "round_even (of_int n) = n"
  by (simp add: round_even_def)

lemma round_even_ge: "of_int m \<le> x \<Longrightarrow> m \<le> round_even x"
proof -
  assume "of_int m \<le> x"
  then have "m \<le> \<lfloor>x\<rfloor>" by (simp add: le_floor_iff)
  then show ?thesis by (simp add: round_even_def Let_def)
qed

lemma round_even_le: "x \<le> of_int m \<Longrightarrow> round_even x \<le> m"
proof -
  assume le: "x \<le> of_int m"
  show ?thesis
  proof (cases "x = of_int m")
    case True
    then show ?thesis by (simp add: round_even_of_int)
  next
    case False
    with le have "x < of_int m" by simp
    then have "\<lfloor>x\<rfloor> < m" by (simp add: floor_less_iff)
    then show ?thesis by (simp add: round_even_def Let_def)
  qed
qed

lemma ulp_scale:
  "(2::real) powi (e - 52) * 4503599627370496 = 2 powi e"
  "(2::real) powi (e - 52) * 9007199254740992 = 2 powi (e + 1)"
proof -
  have "(2::real) powi (e - 52) * 2 powi 52 = 2 powi (e - 52 + 52)"
    by (subst power_int_add) simp_all
  then show "(2::real) powi (e - 52) * 4503599627370496 = 2 powi e" by simp
  have "(2::real) powi (e - 52) * 2 powi 53 = 2 powi (e - 52 + 53)"
    by (subst power_int_add) simp_all
  moreover have "e - 52 + 53 = e + 1" by simp
  ultimately show "(2::real) powi (e - 52) * 9007199254740992 = 2 powi (e + 1)"
    by (simp del: power_int_add)
qed

lemma binary64_idem: "binary64 (binary64 x) = binary64 x"
proof (cases "x = 0")
  case True
  then show ?thesis by (simp add: binary64_def)
next
  case False
  define a where "a = \<bar>x\<bar>"
  define e where "e = exponent a"
  define u :: real where "u = 2 powi (e - 52)"
  define n where "n = round_even (a / u)"
  have apos: "0 < a" using False by (simp add: a_def)
  have upos: "0 < u" by (simp add: u_def)
  from exponent_bounds[OF apos] have ab: "2 powi e \<le> a" "a < 2 powi (e + 1)"
    by (simp_all add: e_def)
  have u52: "u * 4503599627370496 = 2 powi e" and u53: "u * 9007199254740992 = 2 powi (e + 1)"
    by (simp_all add: u_def ulp_scale)
  have lo: "of_int 4503599627370496 \<le> a / u"
    using ab(1) upos u52 by (simp add: field_simps)
  have hi: "a / u \<le> of_int 9007199254740992"
    using ab(2) upos u53 by (simp add: field_simps)
  have nlo: "4503599627370496 \<le> n" unfolding n_def by (rule round_even_ge[OF lo])
  have nhi: "n \<le> 9007199254740992" unfolding n_def by (rule round_even_le[OF hi])
  have y: "binary64 x = sgn x * (of_int n * u)"
    using False by (simp add: binary64_def Let_def a_def e_def u_def n_def)
  have npos: "0 < n" using nlo by simp
  have ynz: "binary64 x \<noteq> 0" using False npos upos by (simp add: y sgn_if)
  have absy: "\<bar>binary64 x\<bar> = of_int n * u"
    using False npos upos by (simp add: y abs_mult)
  have sgny: "sgn (binary64 x) = sgn x"
    using False npos upos by (simp add: y sgn_mult)
  have nlo': "(4503599627370496::real) \<le> of_int n" using nlo by linarith
  have nhi': "of_int n \<le> (9007199254740992::real)" using nhi by linarith
  show ?thesis
  proof (cases "n = 9007199254740992")
    case True
    then have n53: "(of_int n :: real) = 9007199254740992" by simp
    have val: "\<bar>binary64 x\<bar> = 2 powi (e + 1)" by (simp add: absy n53 u53 mult.commute)
    have "(2::real) powi (e + 1) < 2 powi (e + 1 + 1)"
      by (rule power_int_strict_increasing) simp_all
    then have ex: "exponent \<bar>binary64 x\<bar> = e + 1"
      by (intro exponent_unique) (simp_all add: val)
    have "e - 52 + 1 = e - 51" by simp
    then have u': "(2::real) powi (e - 51) = 2 * u"
      using power_int_add[of "2::real" "e - 52" 1] by (simp add: u_def)
    have "\<bar>binary64 x\<bar> / (2 * u) = of_int 4503599627370496"
      using upos by (simp add: absy n53)
    then have "round_even (\<bar>binary64 x\<bar> / (2 * u)) = 4503599627370496"
      by (simp only: round_even_of_int)
    then have "binary64 (binary64 x) = sgn x * (of_int 4503599627370496 * (2 * u))"
      using ynz by (simp add: binary64_def[of "binary64 x"] Let_def ex u' sgny)
    also have "\<dots> = binary64 x" by (simp add: y n53)
    finally show ?thesis .
  next
    case False
    with nhi have "n < 9007199254740992" by simp
    then have "(of_int n :: real) < 9007199254740992" by linarith
    then have "of_int n * u < 9007199254740992 * u" using upos by simp
    then have up: "\<bar>binary64 x\<bar> < 2 powi (e + 1)" by (simp add: absy u53 mult.commute)
    have "4503599627370496 * u \<le> of_int n * u" using nlo' upos by simp
    then have low: "2 powi e \<le> \<bar>binary64 x\<bar>" by (simp add: absy u52 mult.commute)
    have ex: "exponent \<bar>binary64 x\<bar> = e" using low up by (rule exponent_unique)
    have "\<bar>binary64 x\<bar> / u = of_int n" using upos by (simp add: absy)
    then have "round_even (\<bar>binary64 x\<bar> / u) = n" by (simp only: round_even_of_int)
    then have "binary64 (binary64 x) = sgn x * (of_int n * u)"
      using ynz by (simp add: binary64_def[of "binary64 x"] Let_def ex sgny flip: u_def)
    then show ?thesis by (simp add: y)
  qed
qed

lemma toFixed2_mono: "x \<le> y \<Longrightarrow> toFixed2 x \<le> toFixed2 y"
proof -
  assume xy: "x \<le> y"
  consider "y < 0" | "x < 0" "0 \<le> y" | "0 \<le> x" using xy by linarith
  then show ?thesis
  proof cases
    case 1
    with xy have "x < 0" by simp
    have "\<lfloor>(- y) * 100 + 1 / 2\<rfloor> \<le> \<lfloor>(- x) * 100 + 1 / 2\<rfloor>"
      using xy by (intro floor_mono) simp
    then have "(of_int \<lfloor>(- y) * 100 + 1 / 2\<rfloor> :: real) \<le> of_int \<lfloor>(- x) * 100 + 1 / 2\<rfloor>"
      by simp
    with 1 \<open>x < 0\<close> show ?thesis by (simp add: toFixed2_def divide_right_mono)
  next
    case 2
    have "0 \<le> \<lfloor>(- x) * 100 + 1 / 2\<rfloor>" using 2 by simp
    moreover have "0 \<le> \<lfloor>y * 100 + 1 / 2\<rfloor>" using 2 by simp
    ultimately have "toFixed2 x \<le> 0" "0 \<le> toFixed2 y"
      using 2 by (simp_all add: toFixed2_def)
    then show ?thesis by simp
  next
    case 3
    with xy have "0 \<le> y" by simp
    have "\<lfloor>x * 100 + 1 / 2\<rfloor> \<le> \<lfloor>y * 100 + 1 / 2\<rfloor>"
      using xy by (intro floor_mono) simp
    then have "(of_int \<lfloor>x * 100 + 1 / 2\<rfloor> :: real) \<le> of_int \<lfloor>y * 100 + 1 / 2\<rfloor>"
      by simp
    with 3 \<open>0 \<le> y\<close> show ?thesis by (simp add: toFixed2_def divide_right_mono)
  qed
qed

text \<open>Rounding keeps the sign and the order.\<close>

lemma binary64_zero: "binary64 0 = 0"
  by (simp add: binary64_def)

lemma binary64_minus: "binary64 (- x) = - binary64 x"
  by (simp add: binary64_def Let_def)

lemma binary64_pos_bounds:
  assumes "0 < x"
  shows "2 powi exponent x \<le> binary64 x \<and> binary64 x \<le> 2 powi (exponent x + 1)"
proof -
  define e where "e = exponent x"
  define u :: real where "u = 2 powi (e - 52)"
  define n where "n = round_even (x / u)"
  have upos: "0 < u" by (simp add: u_def)
  from exponent_bounds[OF assms] have ab: "2 powi e \<le> x" "x < 2 powi (e + 1)"
    by (simp_all add: e_def)
  have u52: "u * 4503599627370496 = 2 powi e" and u53: "u * 9007199254740992 = 2 powi (e + 1)"
    by (simp_all add: u_def ulp_scale)
  have lo: "of_int 4503599627370496 \<le> x / u"
    using ab(1) upos u52 by (simp add: field_simps)
  have hi: "x / u \<le> of_int 9007199254740992"
    using ab(2) upos u53 by (simp add: field_simps)
  have nlo: "4503599627370496 \<le> n" unfolding n_def by (rule round_even_ge[OF lo])
  have nhi: "n \<le> 9007199254740992" unfolding n_def by (rule round_even_le[OF hi])
  have y: "binary64 x = of_int n * u"
    using assms by (simp add: binary64_def Let_def e_def u_def n_def)
  have "(4503599627370496::real) \<le> of_int n" using nlo by linarith
  then have "4503599627370496 * u \<le> of_int n * u" using upos by simp
  then have 1: "2 powi e \<le> binary64 x" by (simp add: y u52 mult.commute)
  have "of_int n \<le> (9007199254740992::real)" using nhi by linarith
  then have "of_int n * u \<le> 9007199254740992 * u" using upos by simp
  then have 2: "binary64 x \<le> 2 powi (e + 1)" by (simp add: y u53 mult.commute)
  from 1 2 show ?thesis by (simp add: e_def)
qed

lemma binary64_pos: "0 < x \<Longrightarrow> 0 < binary64 x"
proof -
  assume "0 < x"
  from binary64_pos_bounds[OF this] have "2 powi exponent x \<le> binary64 x" by simp
  moreover have "(0::real) < 2 powi exponent x" by simp
  ultimately show ?thesis by linarith
qed

lemma binary64_nonneg: "0 \<le> x \<Longrightarrow> 0 \<le> binary64 x"
  using binary64_pos[of x] by (cases "x = 0") (simp_all add: binary64_zero less_imp_le)

lemma round_even_cases: "round_even x = \<lfloor>x\<rfloor> \<or> round_even x = \<lfloor>x\<rfloor> + 1"
  by (simp add: round_even_def Let_def)

lemma round_even_mono:
  assumes "a \<le> b"
  shows "round_even a \<le> round_even b"
proof (cases "\<lfloor>a\<rfloor> = \<lfloor>b\<rfloor>")
  case True
  then show ?thesis using assms by (auto simp: round_even_def Let_def)
next
  case False
  moreover have "\<lfloor>a\<rfloor> \<le> \<lfloor>b\<rfloor>" using assms by (rule floor_mono)
  ultimately have "\<lfloor>a\<rfloor> + 1 \<le> \<lfloor>b\<rfloor>" by simp
  moreover have "round_even a \<le> \<lfloor>a\<rfloor> + 1" using round_even_cases[of a] by auto
  moreover have "\<lfloor>b\<rfloor> \<le> round_even b" using round_even_cases[of b] by auto
  ultimately show ?thesis by linarith
qed

lemma exponent_mono:
  assumes "0 < a" "a \<le> b"
  shows "exponent a \<le> exponent b"
proof (rule ccontr)
  assume "\<not> exponent a \<le> exponent b"
  then have "exponent b + 1 \<le> exponent a" by simp
  then have "(2::real) powi (exponent b + 1) \<le> 2 powi exponent a"
    by (intro power_int_increasing) simp_all
  moreover have "b < 2 powi (exponent b + 1)" using exponent_bounds[of b] assms by simp
  moreover have "2 powi exponent a \<le> a" using exponent_bounds[OF assms(1)] by simp
  ultimately show False using assms(2) by linarith
qed

lemma binary64_mono_pos:
  assumes "0 < x" "x \<le> y"
  shows "binary64 x \<le> binary64 y"
proof (cases "exponent x = exponent y")
  case True
  define u :: real where "u = 2 powi (exponent y - 52)"
  have upos: "0 < u" by (simp add: u_def)
  have ypos: "0 < y" using assms by simp
  have "x / u \<le> y / u" using assms(2) upos by (simp add: divide_right_mono)
  then have "round_even (x / u) \<le> round_even (y / u)" by (rule round_even_mono)
  then have "(of_int (round_even (x / u)) :: real) \<le> of_int (round_even (y / u))" by simp
  then have "of_int (round_even (x / u)) * u \<le> of_int (round_even (y / u)) * u"
    using upos by simp
  then show ?thesis using assms(1) ypos True by (simp add: binary64_def Let_def u_def)
next
  case False
  have ypos: "0 < y" using assms by simp
  from False exponent_mono[OF assms] have "exponent x + 1 \<le> exponent y" by simp
  then have "(2::real) powi (exponent x + 1) \<le> 2 powi exponent y"
    by (intro power_int_increasing) simp_all
  moreover have "binary64 x \<le> 2 powi (exponent x + 1)"
    using binary64_pos_bounds[OF assms(1)] by simp
  moreover have "2 powi exponent y \<le> binary64 y" using binary64_pos_bounds[OF ypos] by simp
  ultimately show ?thesis by linarith
qed

lemma binary64_mono:
  assumes "x \<le> y"
  shows "binary64 x \<le> binary64 y"
proof -
  consider "0 < x" | "x = 0" | "x < 0" "0 \<le> y" | "x < 0" "y < 0" by linarith
  then show ?thesis
  proof cases
    case 1
    then show ?thesis using assms by (rule binary64_mono_pos)
  next
    case 2
    then show ?thesis using assms binary64_nonneg[of y] by (simp add: binary64_zero)
  next
    case 3
    have "0 < binary64 (- x)" using 3(1) by (intro binary64_pos) simp
    then have "binary64 x < 0" by (simp add: binary64_minus)
    with binary64_nonneg[OF 3(2)] show ?thesis by linarith
  next
    case 4
    have "binary64 (- y) \<le> binary64 (- x)" using 4 assms by (intro binary64_mono_pos) simp_all
    then show ?thesis by (simp add: binary64_minus)
  qed
qed

lemma binary64_toFixed2_mono: "x \<le> y \<Longrightarrow> binary64 (toFixed2 x) \<le> binary64 (toFixed2 y)"
  by (intro binary64_mono toFixed2_mono)

text \<open>
  A left-to-right sum of amounts is a binary64 number, it is at least what it started
  from when the amounts are positive, and it is positive when there is an amount.
\<close>

lemma sum_fold_pos:
  assumes "0 < a" "\<forall>p \<in> set ps. 0 < amount p"
  shows "0 < foldl (\<lambda>sum p. binary64 (sum + amount p)) a ps"
  using assms
proof (induction ps arbitrary: a)
  case Nil
  then show ?case by simp
next
  case (Cons p ps)
  have "0 < binary64 (a + amount p)" using Cons.prems by (intro binary64_pos) simp
  then show ?case using Cons.prems by (simp add: Cons.IH)
qed

lemma sum_fold_nonneg:
  assumes "0 \<le> a" "\<forall>p \<in> set ps. 0 < amount p"
  shows "0 \<le> foldl (\<lambda>sum p. binary64 (sum + amount p)) a ps"
proof (cases ps)
  case Nil
  then show ?thesis using assms by simp
next
  case (Cons p qs)
  have "0 < binary64 (a + amount p)" using assms Cons by (intro binary64_pos) simp
  then have "0 < foldl (\<lambda>sum p. binary64 (sum + amount p)) (binary64 (a + amount p)) qs"
    using assms(2) Cons by (intro sum_fold_pos) simp_all
  then show ?thesis using Cons by simp
qed

lemma sumAmounts_snoc_pos:
  assumes "\<forall>p \<in> set ps. 0 < amount p" "0 < amount q"
  shows "0 < sumAmounts (ps @ [q])"
proof -
  have "0 \<le> foldl (\<lambda>sum p. binary64 (sum + amount p)) 0 ps"
    using assms(1) by (intro sum_fold_nonneg) simp_all
  then have "0 < binary64 (foldl (\<lambda>sum p. binary64 (sum + amount p)) 0 ps + amount q)"
    using assms(2) by (intro binary64_pos) simp
  then show ?thesis by (simp add: sumAmounts_def)
qed

section \<open>Invoice totals\<close>

text \<open>
  In exact arithmetic the loop computes the sum of
  \<open>quantity * unit_price * (1 + rate / 100)\<close> with the rate of \<open>effectiveTaxRate\<close>, rounded
  once. That rate is the specification's unless an item states the rate 0 and the invoice
  has a global rate other than 0.
\<close>

lemma totalAmount_sum_list:
  "totalAmount its g =
     sum_list (map (\<lambda>it. quantity it * unit_price it * (1 + effectiveTaxRate it g / 100)) its)"
proof -
  have "foldl (addItem g) a its =
          a + sum_list (map (\<lambda>it. quantity it * unit_price it * (1 + effectiveTaxRate it g / 100)) its)"
    for a
    by (induction its arbitrary: a) (simp_all add: addItem_def Let_def algebra_simps)
  from this[of 0] show ?thesis by (simp add: totalAmount_def)
qed

lemma effectiveTaxRate_eq_spec:
  "tax_rate it \<noteq> Some 0 \<or> \<not> truthy g \<Longrightarrow> effectiveTaxRate it g = spec_effective_tax_rate it g"
  by (cases "tax_rate it"; cases g)
     (auto simp: effectiveTaxRate_def spec_effective_tax_rate_def js_or_def)

lemma invoiceTotal_eq_spec_total:
  assumes "list_all (\<lambda>it. tax_rate it \<noteq> Some 0 \<or> \<not> truthy g) its"
  shows "invoiceTotal its g = spec_total its g"
proof -
  have "\<forall>it \<in> set its. effectiveTaxRate it g = spec_effective_tax_rate it g"
    using assms by (auto simp: list_all_iff intro!: effectiveTaxRate_eq_spec)
  then have "map (\<lambda>it. quantity it * unit_price it * (1 + effectiveTaxRate it g / 100)) its =
        map (\<lambda>it. quantity it * unit_price it * (1 + spec_effective_tax_rate it g / 100)) its"
    by (intro map_cong refl) simp
  then show ?thesis by (simp only: invoiceTotal_def spec_total_def totalAmount_sum_list)
qed

lemmas total_defs = invoiceTotal_def totalAmount_def addItem_def effectiveTaxRate_def js_or_def
  toFixed2_def Let_def

lemmas total64_defs = invoiceTotal64_def addItem64_def effectiveTaxRate64_def js_or_def
  toFixed2_def binary64_eval

lemmas valid_defs = validInvoiceBody_def validItem_def validRate_def validRecurrence_def

lemma uuid_examples:
  "isUUIDv4 acme_id" "isUUIDv4 globex_id" "isUUIDv4 initech_id" "isUUIDv4 hooli_id"
  "isUUIDv4 invA_id" "isUUIDv4 invB_id" "isUUIDv4 cents_id"
  "isUUIDv4 first_id" "isUUIDv4 second_id" "isUUIDv4 third_id"
  by (simp_all add: isUUIDv4_def hexDigit_def)

lemma newInvoice_sel [simp]:
  "inv_id (newInvoice d u b c fresh now year) = orElse (b_id b) fresh"
  "inv_userId (newInvoice d u b c fresh now year) = orElse (b_userId b) (pr_id u)"
  "invoice_number (newInvoice d u b c fresh now year) =
     orElse (b_invoice_number b) (generateInvoiceNumber year d)"
  "total_amount (newInvoice d u b c fresh now year) = invoiceTotal64 (b_items b) (b_global_tax_rate b)"
  by (simp_all add: newInvoice_def)

lemma updatedInvoice_sel [simp]:
  "total_amount (updatedInvoice old b c now) = invoiceTotal64 (b_items b) (b_global_tax_rate b)"
  by (simp add: updatedInvoice_def)

lemma exemptBody_total: "invoiceTotal64 (b_items exemptBody) (b_global_tax_rate exemptBody) = 110"
  by (simp add: exemptBody_def total64_defs)

lemma exemptBody_valid: "validInvoiceBody isUUIDv4 exemptBody"
  by (simp add: exemptBody_def orderBody_def valid_defs uuid_examples)

lemma orderBody_valid: "validInvoiceBody isUUIDv4 orderBody"
  by (simp add: orderBody_def valid_defs widgets_def uuid_examples)

lemma acme_owned: "ownedClient fresh_store alice acme_id = Some acme"
  "ownedClient demo alice acme_id = Some acme"
  by (simp_all add: ownedClient_def fresh_store_def demo_def alice_def acme_def)

text \<open>
  Claim C1 fails on a tax-exempt item. The body passes validation (an item rate of 0 is
  within 0..100); \<open>item.tax_rate || invoiceData.global_tax_rate || 0\<close> skips the falsy 0
  and takes the global rate 10, so creation and update both store 110.00 where the
  formula of the specification gives 100.00.
\<close>

theorem zero_item_rate_falls_back_to_global:
  "validInvoiceBody isUUIDv4 exemptBody \<and>
   postInvoice isUUIDv4 demo alice exemptBody third_id noon 2025 =
     Inr (demo\<lparr>invoices := invoices demo @ [newInvoice demo alice exemptBody acme third_id noon 2025]\<rparr>,
          newInvoice demo alice exemptBody acme third_id noon 2025) \<and>
   total_amount (newInvoice demo alice exemptBody acme third_id noon 2025) = 110 \<and>
   putInvoice isUUIDv4 demo alice invA_id exemptBody noon =
     Inr (demo\<lparr>invoices := [updatedInvoice invA exemptBody acme noon, invB]\<rparr>,
          updatedInvoice invA exemptBody acme noon) \<and>
   total_amount (updatedInvoice invA exemptBody acme noon) = 110 \<and>
   spec_total (b_items exemptBody) (b_global_tax_rate exemptBody) = 100"
proof -
  have c: "b_client_id exemptBody = acme_id" by (simp add: exemptBody_def orderBody_def)
  have post: "postInvoice isUUIDv4 demo alice exemptBody third_id noon 2025 =
     Inr (demo\<lparr>invoices := invoices demo @ [newInvoice demo alice exemptBody acme third_id noon 2025]\<rparr>,
          newInvoice demo alice exemptBody acme third_id noon 2025)"
    by (simp add: postInvoice_def exemptBody_valid c acme_owned Let_def)
  have f: "js_find (owns alice invA_id) (invoices demo) = Some invA"
    by (simp add: demo_def owns_def invA_def alice_def)
  have u: "update_first (owns alice invA_id) (\<lambda>_. updatedInvoice invA exemptBody acme noon) (invoices demo)
           = [updatedInvoice invA exemptBody acme noon, invB]"
    by (simp add: demo_def owns_def invA_def alice_def)
  have put: "putInvoice isUUIDv4 demo alice invA_id exemptBody noon =
     Inr (demo\<lparr>invoices := [updatedInvoice invA exemptBody acme noon, invB]\<rparr>,
          updatedInvoice invA exemptBody acme noon)"
    by (simp add: putInvoice_def exemptBody_valid c acme_owned f u Let_def uuid_examples)
  have spec: "spec_total (b_items exemptBody) (b_global_tax_rate exemptBody) = 100"
    by (simp add: exemptBody_def spec_total_def spec_effective_tax_rate_def toFixed2_def)
  from exemptBody_valid post put spec exemptBody_total show ?thesis by simp
qed

subsection \<open>The order of the items\<close>

lemma invoiceTotal_mset:
  assumes "mset its' = mset its"
  shows "invoiceTotal its' g = invoiceTotal its g"
proof -
  let ?c = "\<lambda>it. quantity it * unit_price it * (1 + effectiveTaxRate it g / 100)"
  have "sum_list (map ?c its') = sum_mset (image_mset ?c (mset its'))"
    by (simp add: sum_mset_sum_list flip: mset_map)
  also have "\<dots> = sum_mset (image_mset ?c (mset its))" by (simp add: assms)
  also have "\<dots> = sum_list (map ?c its)"
    by (simp add: sum_mset_sum_list flip: mset_map)
  finally show ?thesis by (simp add: invoiceTotal_def totalAmount_sum_list)
qed

lemma addItem64_contribution:
  "\<exists>c. binary64 c = c \<and> (\<forall>r. addItem64 g r it = binary64 (r + c))"
proof -
  let ?sub = "binary64 (binary64 (quantity it) * binary64 (unit_price it))"
  let ?c = "binary64 (?sub + binary64 (?sub * binary64 (effectiveTaxRate64 it g / 100)))"
  have "binary64 ?c = ?c" by (rule binary64_idem)
  moreover have "\<forall>r. addItem64 g r it = binary64 (r + ?c)"
    by (simp add: addItem64_def Let_def)
  ultimately show ?thesis by blast
qed

lemma invoiceTotal64_pair: "invoiceTotal64 [x, y] g = invoiceTotal64 [y, x] g"
proof -
  obtain cx where cx: "binary64 cx = cx" "\<And>r. addItem64 g r x = binary64 (r + cx)"
    using addItem64_contribution[of g x] by blast
  obtain cy where cy: "binary64 cy = cy" "\<And>r. addItem64 g r y = binary64 (r + cy)"
    using addItem64_contribution[of g y] by blast
  show ?thesis by (simp add: invoiceTotal64_def cx cy add.commute)
qed

lemma mset_pair_cases:
  assumes "mset xs = mset [a, b]"
  shows "xs = [a, b] \<or> xs = [b, a]"
proof -
  from assms have len: "length xs = 2" by (metis length_Cons list.size(3) size_mset numeral_2_eq_2)
  then obtain c d where xs: "xs = [c, d]"
    by (metis (no_types, opaque_lifting) Suc_length_conv length_0_conv numeral_2_eq_2)
  with assms have "{#c, d#} = {#a, b#}" by simp
  then have "(c = a \<and> d = b) \<or> (c = b \<and> d = a)"
    by (auto simp: add_eq_conv_ex)
  with xs show ?thesis by auto
qed

lemma binary64_contributions:
  "addItem64 None r nickel = binary64 (r + 3963167672086037 / 72057594037927936)"
  "addItem64 None r dime = binary64 (r + 3602879701896397 / 36028797018963968)"
  "addItem64 None r twenty = binary64 (r + 3602879701896397 / 18014398509481984)"
  by (simp_all add: addItem64_def effectiveTaxRate64_def js_or_def nickel_def dime_def twenty_def binary64_eval)

lemma binary64_sum_in_order:
  "foldl (addItem64 None) 0 [nickel, dime, twenty] = 6395111470866105 / 18014398509481984"
  by (simp add: binary64_contributions) (simp add: binary64_eval)

lemma binary64_sum_swapped:
  "foldl (addItem64 None) 0 [nickel, twenty, dime] = 799388933858263 / 2251799813685248"
  by (simp add: binary64_contributions) (simp add: binary64_eval)

lemma binary64_cents: "binary64 (36 / 100) = 3242591731706757 / 9007199254740992"
  "binary64 (35 / 100) = 3152519739159347 / 9007199254740992"
  by (simp_all add: binary64_eval)

text \<open>
  Claim C3, as amended. Permuting the items does not change the total when the sum is
  taken exactly, and as the server computes it, in binary64, it does not change the total
  of an invoice with at most two items (one addition of two rounded contributions is
  commutative).
\<close>

theorem total_order_independent_exactly:
  assumes "mset its' = mset its"
  shows "invoiceTotal its' g = invoiceTotal its g \<and>
         (length its \<le> 2 \<longrightarrow> invoiceTotal64 its' g = invoiceTotal64 its g)"
proof
  show "invoiceTotal its' g = invoiceTotal its g" using assms by (rule invoiceTotal_mset)
  show "length its \<le> 2 \<longrightarrow> invoiceTotal64 its' g = invoiceTotal64 its g"
  proof
    assume "length its \<le> 2"
    then consider "its = []" | a where "its = [a]" | a b where "its = [a, b]"
      by (cases its; cases "tl its"; cases "tl (tl its)") auto
    then show "invoiceTotal64 its' g = invoiceTotal64 its g"
    proof cases
      case 1
      with assms show ?thesis by simp
    next
      case 2
      with assms show ?thesis by simp
    next
      case 3
      with assms have "its' = [a, b] \<or> its' = [b, a]" by (simp add: mset_pair_cases)
      with 3 show ?thesis using invoiceTotal64_pair by auto
    qed
  qed
qed

theorem total_order_independent_exactly_witness:
  "mset [nickel, twenty, dime] = mset [nickel, dime, twenty] \<and>
   invoiceTotal [nickel, twenty, dime] None = 36 / 100 \<and>
   invoiceTotal [nickel, dime, twenty] None = 36 / 100 \<and>
   mset [twenty, nickel] = mset [nickel, twenty] \<and> length [nickel, twenty] \<le> 2 \<and>
   invoiceTotal64 [twenty, nickel] None = invoiceTotal64 [nickel, twenty] None"
proof -
  have m3: "mset [nickel, twenty, dime] = mset [nickel, dime, twenty]" by simp
  have m2: "mset [twenty, nickel] = mset [nickel, twenty]" by simp
  have v: "invoiceTotal [nickel, dime, twenty] None = 36 / 100"
    by (simp add: total_defs nickel_def dime_def twenty_def)
  from total_order_independent_exactly[OF m3, of None] v
  have "invoiceTotal [nickel, twenty, dime] None = 36 / 100" by simp
  moreover from total_order_independent_exactly[OF m2, of None]
  have "invoiceTotal64 [twenty, nickel] None = invoiceTotal64 [nickel, twenty] None" by simp
  ultimately show ?thesis using m3 m2 v by simp
qed

text \<open>
  Claim C3 as stated fails in binary64 from three items on. The contributions are
  0.055, 0.10 and 0.20 up to rounding; added in this order the sum is just above 0.355 and
  is stored as 0.36, with the last two swapped it is just below and is stored as 0.35.
\<close>

theorem reordering_changes_binary64_total:
  "mset [nickel, twenty, dime] = mset [nickel, dime, twenty] \<and>
   invoiceTotal64 [nickel, dime, twenty] None = binary64 (36 / 100) \<and>
   invoiceTotal64 [nickel, twenty, dime] None = binary64 (35 / 100) \<and>
   binary64 (35 / 100) \<noteq> binary64 (36 / 100)"
proof -
  have "invoiceTotal64 [nickel, dime, twenty] None = binary64 (36 / 100)"
    unfolding invoiceTotal64_def binary64_sum_in_order by (simp add: toFixed2_def)
  moreover have "invoiceTotal64 [nickel, twenty, dime] None = binary64 (35 / 100)"
    unfolding invoiceTotal64_def binary64_sum_swapped by (simp add: toFixed2_def)
  moreover have "binary64 (35 / 100) \<noteq> binary64 (36 / 100)"
    unfolding binary64_cents by simp
  moreover have "mset [nickel, twenty, dime] = mset [nickel, dime, twenty]"
    by simp
  ultimately show ?thesis by blast
qed

lemma binary64_contributions_ordinary:
  "addItem64 None r spares = binary64 (r + 397282138417791 / 2199023255552)"
  "addItem64 None r labour = binary64 (r + 3042814866986369 / 35184372088832)"
  "addItem64 None r delivery = binary64 (r + 1496567266798469 / 17592186044416)"
  by (simp_all add: addItem64_def effectiveTaxRate64_def js_or_def spares_def labour_def
      delivery_def binary64_eval)

lemma binary64_sum_ordinary:
  "foldl (addItem64 None) 0 [spares, labour, delivery] = 6196231807633981 / 17592186044416"
  "foldl (addItem64 None) 0 [spares, delivery, labour] = 3098115903816991 / 8796093022208"
  by (simp_all add: binary64_contributions_ordinary) (simp_all add: binary64_eval)

text \<open>
  The same on the ordinary invoice: 352.21 with the items as listed, 352.22 with labour
  and delivery swapped.
\<close>

lemma reordering_changes_ordinary_total:
  "invoiceTotal64 [spares, labour, delivery] None = binary64 (35221 / 100) \<and>
   invoiceTotal64 [spares, delivery, labour] None = binary64 (35222 / 100) \<and>
   binary64 (35221 / 100) \<noteq> binary64 (35222 / 100)"
proof -
  have "invoiceTotal64 [spares, labour, delivery] None = binary64 (35221 / 100)"
    unfolding invoiceTotal64_def binary64_sum_ordinary by (simp add: toFixed2_def)
  moreover have "invoiceTotal64 [spares, delivery, labour] None = binary64 (35222 / 100)"
    unfolding invoiceTotal64_def binary64_sum_ordinary by (simp add: toFixed2_def)
  moreover have "binary64 (35221 / 100) \<noteq> binary64 (35222 / 100)"
    by (simp add: binary64_eval)
  ultimately show ?thesis by blast
qed

section \<open>Invoice numbers\<close>

lemma replicate_numeral_eq: "replicate (numeral v) x = x # replicate (numeral v - 1) x"
  by (simp add: numeral_eq_Suc)

lemma string_of_nat_small: "n < 10 \<Longrightarrow> string_of_nat n = [digit_char n]"
  by (simp add: string_of_nat.simps)

lemma string_of_nat_big:
  "\<not> n < 10 \<Longrightarrow> string_of_nat n = string_of_nat (n div 10) @ [digit_char (n mod 10)]"
  by (subst string_of_nat.simps) simp

lemmas number_defs = generateInvoiceNumber_def padStart_def string_of_nat_small string_of_nat_big
  digit_char_def replicate_numeral_eq

lemma orderBody_keys: "b_client_id orderBody = acme_id" "b_invoice_number orderBody = None"
  "b_id orderBody = None" "b_userId orderBody = None"
  by (simp_all add: orderBody_def)

text \<open>
  Claim C4 fails after a deletion: the number is derived from the length of the invoice
  list, which a deletion shortens. Create two invoices, delete the first, create a
  third: the second and the third are distinct invoices with the same number.
\<close>

theorem invoice_number_reused_after_delete:
  "\<exists>d1 a d2 b d3 d4 c.
     postInvoice isUUIDv4 fresh_store alice orderBody first_id noon 2025 = Inr (d1, a) \<and>
     postInvoice isUUIDv4 d1 alice orderBody second_id noon 2025 = Inr (d2, b) \<and>
     deleteInvoice isUUIDv4 d2 alice first_id = Inr d3 \<and>
     postInvoice isUUIDv4 d3 alice orderBody third_id noon 2025 = Inr (d4, c) \<and>
     invoices d4 = [b, c] \<and> inv_id b = second_id \<and> inv_id c = third_id \<and>
     invoice_number a = ''INV-2025-00001'' \<and>
     invoice_number b = ''INV-2025-00002'' \<and>
     invoice_number c = ''INV-2025-00002''"
proof -
  define a where "a = newInvoice fresh_store alice orderBody acme first_id noon 2025"
  define d1 where "d1 = fresh_store\<lparr>invoices := [a]\<rparr>"
  define b where "b = newInvoice d1 alice orderBody acme second_id noon 2025"
  define d2 where "d2 = fresh_store\<lparr>invoices := [a, b]\<rparr>"
  define d3 where "d3 = fresh_store\<lparr>invoices := [b]\<rparr>"
  define c where "c = newInvoice d3 alice orderBody acme third_id noon 2025"
  define d4 where "d4 = fresh_store\<lparr>invoices := [b, c]\<rparr>"
  have cl: "ownedClient d alice acme_id = Some acme" if "clients d = clients fresh_store" for d
    using that by (simp add: ownedClient_def fresh_store_def alice_def acme_def)
  have s1: "postInvoice isUUIDv4 fresh_store alice orderBody first_id noon 2025 = Inr (d1, a)"
    by (simp add: postInvoice_def orderBody_valid orderBody_keys cl a_def d1_def Let_def)
       (simp add: fresh_store_def)
  have s2: "postInvoice isUUIDv4 d1 alice orderBody second_id noon 2025 = Inr (d2, b)"
    by (simp add: postInvoice_def orderBody_valid orderBody_keys cl d1_def d2_def b_def Let_def)
  have ida: "inv_id a = first_id" "inv_userId a = ''u1''"
    by (simp_all add: a_def orderBody_keys orElse_def alice_def)
  have idb: "inv_id b = second_id" "inv_userId b = ''u1''"
    by (simp_all add: b_def orderBody_keys orElse_def alice_def)
  have idc: "inv_id c = third_id"
    by (simp add: c_def orderBody_keys orElse_def)
  have s3: "deleteInvoice isUUIDv4 d2 alice first_id = Inr d3"
    by (simp add: deleteInvoice_def owns_def d2_def d3_def ida idb Let_def alice_def uuid_examples)
       (simp add: fresh_store_def)
  have s4: "postInvoice isUUIDv4 d3 alice orderBody third_id noon 2025 = Inr (d4, c)"
    by (simp add: postInvoice_def orderBody_valid orderBody_keys cl d3_def d4_def c_def Let_def)
  have na: "invoice_number a = ''INV-2025-00001''"
    by (simp add: a_def orderBody_keys orElse_def number_defs fresh_store_def)
  have nb: "invoice_number b = ''INV-2025-00002''"
    by (simp add: b_def d1_def orderBody_keys orElse_def number_defs)
  have nc: "invoice_number c = ''INV-2025-00002''"
    by (simp add: c_def d3_def orderBody_keys orElse_def number_defs)
  have "invoices d4 = [b, c]" by (simp add: d4_def)
  with s1 s2 s3 s4 idb idc na nb nc show ?thesis by blast
qed


section \<open>Recording a payment\<close>

text \<open>What a successful recording has gone through, and what it returns.\<close>

lemma postPayment_Inr:
  assumes "postPayment isUUID d u i b fresh now = Inr (d', p)"
  obtains iv a t where "isUUID i" "pb_amount b = Given a" "0 < a"
    "pb_payment_date b = Given t" "pb_payment_method b \<noteq> []" "pb_notes b \<noteq> Malformed"
    "js_find (owns u i) (invoices d) = Some iv"
    "p = \<lparr> pay_id = fresh, invoiceId = i, pay_userId = pr_id u,
           amount = binary64 a, payment_date = t,
           payment_method = pb_payment_method b, pay_notes = parsedNotes (pb_notes b),
           pay_createdAt = now \<rparr>"
    "d' = d\<lparr>payments := payments d @ [p],
            invoices := update_first (owns u i)
               (\<lambda>iv. iv\<lparr>inv_status := statusAfter (totalPaidFor i (payments d @ [p]))
                                          (total_amount iv) (inv_status iv),
                         inv_updatedAt := now\<rparr>) (invoices d)\<rparr>"
proof -
  from assms have u: "isUUID i" and v: "validPaymentBody b"
    by (auto simp: postPayment_def split: if_splits)
  from v obtain a t where a: "pb_amount b = Given a" "0 < a" and t: "pb_payment_date b = Given t"
    and m: "pb_payment_method b \<noteq> []" and n: "pb_notes b \<noteq> Malformed"
    by (auto simp: validPaymentBody_def split: input.splits)
  from assms u v obtain iv where f: "js_find (owns u i) (invoices d) = Some iv"
    by (auto simp: postPayment_def split: option.splits)
  from assms u v f a t have
    "p = \<lparr> pay_id = fresh, invoiceId = i, pay_userId = pr_id u,
           amount = binary64 a, payment_date = t,
           payment_method = pb_payment_method b, pay_notes = parsedNotes (pb_notes b),
           pay_createdAt = now \<rparr>"
    "d' = d\<lparr>payments := payments d @ [p],
            invoices := update_first (owns u i)
               (\<lambda>iv. iv\<lparr>inv_status := statusAfter (totalPaidFor i (payments d @ [p]))
                                          (total_amount iv) (inv_status iv),
                         inv_updatedAt := now\<rparr>) (invoices d)\<rparr>"
    by (auto simp: postPayment_def Let_def parsedAmount_def parsedDate_def)
  with u a t m n f show thesis by (rule that)
qed





lemma pay100_keys:
  "pb_amount pay100 = Given 100" "pb_payment_date pay100 = Given noon"
  "pb_payment_method pay100 = ''transfer''" "pb_notes pay100 = Missing"
  "pb_amount (pay100\<lparr>pb_amount := x\<rparr>) = x"
  "pb_payment_method (pay100\<lparr>pb_payment_method := m\<rparr>) = m"
  "pb_amount (pay100\<lparr>pb_payment_method := m\<rparr>) = Given 100"
  by (simp_all add: pay100_def)

lemma binary64_small:
  "binary64 30 = 30" "binary64 100 = 100" "binary64 130 = 130"
  by (simp_all add: binary64_eval)






text \<open>
  Claim C9. After a successful payment recording, when every payment recorded before had
  a positive amount, the new amount is positive, also as the binary64 number that is
  stored, and the invoice is \<open>paid\<close> or \<open>partially_paid\<close>: the sum the server computes is
  positive, so the branch that leaves the status unchanged is not taken.
\<close>

theorem status_after_payment:
  assumes "postPayment isUUID d u i b fresh now = Inr (d', p)"
    and "\<forall>q \<in> set (payments d). 0 < amount q"
  shows "(\<exists>a. pb_amount b = Given a \<and> 0 < a) \<and> 0 < amount p \<and>
         (\<exists>iv'. js_find (owns u i) (invoices d') = Some iv' \<and>
            (inv_status iv' = Paid \<or> inv_status iv' = PartiallyPaid))"
proof -
  from assms(1) obtain iv a t where a: "pb_amount b = Given a" "0 < a"
    and f: "js_find (owns u i) (invoices d) = Some iv"
    and p: "p = \<lparr> pay_id = fresh, invoiceId = i, pay_userId = pr_id u,
                   amount = binary64 a, payment_date = t,
                   payment_method = pb_payment_method b, pay_notes = parsedNotes (pb_notes b),
                   pay_createdAt = now \<rparr>"
    and d': "d' = d\<lparr>payments := payments d @ [p],
            invoices := update_first (owns u i)
               (\<lambda>iv. iv\<lparr>inv_status := statusAfter (totalPaidFor i (payments d @ [p]))
                                          (total_amount iv) (inv_status iv),
                         inv_updatedAt := now\<rparr>) (invoices d)\<rparr>"
    by (rule postPayment_Inr)
  have pos: "0 < amount p" using a(2) by (simp add: p binary64_pos)
  have ip: "invoiceId p = i" by (simp add: p)
  have "0 < sumAmounts (filter (\<lambda>q. invoiceId q = i) (payments d) @ [p])"
    using assms(2) pos by (intro sumAmounts_snoc_pos) simp_all
  then have tp: "0 < totalPaidFor i (payments d @ [p])"
    by (simp add: totalPaidFor_def ip)
  let ?g = "\<lambda>iv::invoice. iv\<lparr>inv_status := statusAfter (totalPaidFor i (payments d @ [p]))
                                          (total_amount iv) (inv_status iv),
                         inv_updatedAt := now\<rparr>"
  have "owns u i iv" using js_find_Some[OF f] by simp
  then have "owns u i (?g iv)" by (simp add: owns_def)
  with f have "js_find (owns u i) (invoices d') = Some (?g iv)"
    by (simp add: d' js_find_update_first)
  moreover have "inv_status (?g iv) = Paid \<or> inv_status (?g iv) = PartiallyPaid"
    using tp by (simp add: statusAfter_def)
  ultimately show ?thesis using a pos by blast
qed

lemma demo_payment_runs:
  "postPayment isUUIDv4 demo alice invB_id pay100 ''p2'' noon =
     Inr (demo\<lparr>payments := [payB, \<lparr> pay_id = ''p2'', invoiceId = invB_id, pay_userId = ''u1'',
                    amount = 100, payment_date = noon, payment_method = ''transfer'',
                    pay_notes = None, pay_createdAt = noon \<rparr>],
               invoices := [invA, invB\<lparr>inv_status := Paid, inv_updatedAt := noon\<rparr>]\<rparr>,
          \<lparr> pay_id = ''p2'', invoiceId = invB_id, pay_userId = ''u1'',
                    amount = 100, payment_date = noon, payment_method = ''transfer'',
                    pay_notes = None, pay_createdAt = noon \<rparr>)"
  "postPayment isUUIDv4 demo alice invA_id pay100 ''p2'' noon =
     Inr (demo\<lparr>payments := [payB, \<lparr> pay_id = ''p2'', invoiceId = invA_id, pay_userId = ''u1'',
                    amount = 100, payment_date = noon, payment_method = ''transfer'',
                    pay_notes = None, pay_createdAt = noon \<rparr>],
               invoices := [invA\<lparr>inv_status := PartiallyPaid, inv_updatedAt := noon\<rparr>, invB]\<rparr>,
          \<lparr> pay_id = ''p2'', invoiceId = invA_id, pay_userId = ''u1'',
                    amount = 100, payment_date = noon, payment_method = ''transfer'',
                    pay_notes = None, pay_createdAt = noon \<rparr>)"
  by (simp_all add: postPayment_def validPaymentBody_def parsedAmount_def parsedDate_def
      parsedNotes_def owns_def statusAfter_def totalPaidFor_def sumAmounts_def Let_def
      uuid_examples pay100_keys binary64_small demo_def invA_def invB_def payB_def alice_def)

theorem status_after_payment_witness:
  "postPayment isUUIDv4 demo alice invB_id pay100 ''p2'' noon =
     Inr (demo\<lparr>payments := [payB, \<lparr> pay_id = ''p2'', invoiceId = invB_id, pay_userId = ''u1'',
                    amount = 100, payment_date = noon, payment_method = ''transfer'',
                    pay_notes = None, pay_createdAt = noon \<rparr>],
               invoices := [invA, invB\<lparr>inv_status := Paid, inv_updatedAt := noon\<rparr>]\<rparr>,
          \<lparr> pay_id = ''p2'', invoiceId = invB_id, pay_userId = ''u1'',
                    amount = 100, payment_date = noon, payment_method = ''transfer'',
                    pay_notes = None, pay_createdAt = noon \<rparr>) \<and>
   list_all (\<lambda>q. 0 < amount q) (payments demo) \<and>
   js_find (owns alice invB_id)
     [invA, invB\<lparr>inv_status := Paid, inv_updatedAt := noon\<rparr>] =
       Some (invB\<lparr>inv_status := Paid, inv_updatedAt := noon\<rparr>)"
proof -
  let ?p = "\<lparr> pay_id = ''p2'', invoiceId = invB_id, pay_userId = ''u1'',
                    amount = 100, payment_date = noon, payment_method = ''transfer'',
                    pay_notes = None, pay_createdAt = noon \<rparr>"
  let ?d' = "demo\<lparr>payments := [payB, ?p],
               invoices := [invA, invB\<lparr>inv_status := Paid, inv_updatedAt := noon\<rparr>]\<rparr>"
  have run: "postPayment isUUIDv4 demo alice invB_id pay100 ''p2'' noon = Inr (?d', ?p)"
    by (rule demo_payment_runs)
  have pos: "\<forall>q \<in> set (payments demo). 0 < amount q" by (simp add: demo_def payB_def)
  from status_after_payment[OF run pos]
  obtain iv' where "js_find (owns alice invB_id) (invoices ?d') = Some iv'"
    "inv_status iv' = Paid \<or> inv_status iv' = PartiallyPaid" by blast
  moreover have "js_find (owns alice invB_id) (invoices ?d') = Some (invB\<lparr>inv_status := Paid, inv_updatedAt := noon\<rparr>)"
    by (simp add: owns_def invA_def invB_def alice_def)
  ultimately show ?thesis using run pos by (simp add: list_all_iff)
qed

text \<open>
  Claim C10. A successful payment recording leaves users, settings and clients as they
  were, appends the payment, and changes the invoice list at one index only, that of an
  invoice the caller owns with the requested id, where at most the status and the
  updated-timestamp differ: every other field of every invoice is what it was.
\<close>

theorem payment_frame:
  assumes "postPayment isUUID d u i b fresh now = Inr (d', p)"
  shows "users d' = users d \<and> user_settings d' = user_settings d \<and> clients d' = clients d \<and>
         payments d' = payments d @ [p] \<and>
         (\<exists>k st. k < length (invoices d) \<and> owns u i (invoices d ! k) \<and>
            invoices d' =
              (invoices d)[k := (invoices d ! k)\<lparr>inv_status := st, inv_updatedAt := now\<rparr>] \<and>
            (\<forall>j < length (invoices d). j \<noteq> k \<longrightarrow> invoices d' ! j = invoices d ! j)) \<and>
         length (invoices d') = length (invoices d) \<and>
         (\<forall>j < length (invoices d).
            inv_id (invoices d' ! j) = inv_id (invoices d ! j) \<and>
            inv_userId (invoices d' ! j) = inv_userId (invoices d ! j) \<and>
            total_amount (invoices d' ! j) = total_amount (invoices d ! j) \<and>
            items (invoices d' ! j) = items (invoices d ! j) \<and>
            invoice_number (invoices d' ! j) = invoice_number (invoices d ! j) \<and>
            clientId (invoices d' ! j) = clientId (invoices d ! j) \<and>
            client_name (invoices d' ! j) = client_name (invoices d ! j) \<and>
            invoice_date (invoices d' ! j) = invoice_date (invoices d ! j) \<and>
            due_date (invoices d' ! j) = due_date (invoices d ! j) \<and>
            currency (invoices d' ! j) = currency (invoices d ! j) \<and>
            inv_notes (invoices d' ! j) = inv_notes (invoices d ! j) \<and>
            global_tax_rate (invoices d' ! j) = global_tax_rate (invoices d ! j) \<and>
            is_recurring (invoices d' ! j) = is_recurring (invoices d ! j) \<and>
            recurrence_frequency (invoices d' ! j) = recurrence_frequency (invoices d ! j) \<and>
            recurrence_interval (invoices d' ! j) = recurrence_interval (invoices d ! j) \<and>
            recurrence_end_date (invoices d' ! j) = recurrence_end_date (invoices d ! j) \<and>
            inv_createdAt (invoices d' ! j) = inv_createdAt (invoices d ! j))"
proof -
  from assms obtain iv a t where f: "js_find (owns u i) (invoices d) = Some iv"
    and d': "d' = d\<lparr>payments := payments d @ [p],
            invoices := update_first (owns u i)
               (\<lambda>iv. iv\<lparr>inv_status := statusAfter (totalPaidFor i (payments d @ [p]))
                                          (total_amount iv) (inv_status iv),
                         inv_updatedAt := now\<rparr>) (invoices d)\<rparr>"
    by (rule postPayment_Inr)
  let ?g = "\<lambda>iv::invoice. iv\<lparr>inv_status := statusAfter (totalPaidFor i (payments d @ [p]))
                                          (total_amount iv) (inv_status iv),
                         inv_updatedAt := now\<rparr>"
  from update_first_list_update[OF f, of ?g] obtain k
    where k: "k < length (invoices d)" "invoices d ! k = iv"
      and upd: "update_first (owns u i) ?g (invoices d) = (invoices d)[k := ?g iv]"
    by blast
  have own: "owns u i (invoices d ! k)" using js_find_Some[OF f] k by simp
  have inv': "invoices d' = (invoices d)[k := ?g (invoices d ! k)]"
    using upd k by (simp add: d')
  have others: "\<forall>j < length (invoices d). j \<noteq> k \<longrightarrow> invoices d' ! j = invoices d ! j"
    by (simp add: inv')
  have fields: "\<forall>j < length (invoices d).
            inv_id (invoices d' ! j) = inv_id (invoices d ! j) \<and>
            inv_userId (invoices d' ! j) = inv_userId (invoices d ! j) \<and>
            total_amount (invoices d' ! j) = total_amount (invoices d ! j) \<and>
            items (invoices d' ! j) = items (invoices d ! j) \<and>
            invoice_number (invoices d' ! j) = invoice_number (invoices d ! j) \<and>
            clientId (invoices d' ! j) = clientId (invoices d ! j) \<and>
            client_name (invoices d' ! j) = client_name (invoices d ! j) \<and>
            invoice_date (invoices d' ! j) = invoice_date (invoices d ! j) \<and>
            due_date (invoices d' ! j) = due_date (invoices d ! j) \<and>
            currency (invoices d' ! j) = currency (invoices d ! j) \<and>
            inv_notes (invoices d' ! j) = inv_notes (invoices d ! j) \<and>
            global_tax_rate (invoices d' ! j) = global_tax_rate (invoices d ! j) \<and>
            is_recurring (invoices d' ! j) = is_recurring (invoices d ! j) \<and>
            recurrence_frequency (invoices d' ! j) = recurrence_frequency (invoices d ! j) \<and>
            recurrence_interval (invoices d' ! j) = recurrence_interval (invoices d ! j) \<and>
            recurrence_end_date (invoices d' ! j) = recurrence_end_date (invoices d ! j) \<and>
            inv_createdAt (invoices d' ! j) = inv_createdAt (invoices d ! j)"
  proof (intro allI impI)
    fix j assume "j < length (invoices d)"
    then show "inv_id (invoices d' ! j) = inv_id (invoices d ! j) \<and>
            inv_userId (invoices d' ! j) = inv_userId (invoices d ! j) \<and>
            total_amount (invoices d' ! j) = total_amount (invoices d ! j) \<and>
            items (invoices d' ! j) = items (invoices d ! j) \<and>
            invoice_number (invoices d' ! j) = invoice_number (invoices d ! j) \<and>
            clientId (invoices d' ! j) = clientId (invoices d ! j) \<and>
            client_name (invoices d' ! j) = client_name (invoices d ! j) \<and>
            invoice_date (invoices d' ! j) = invoice_date (invoices d ! j) \<and>
            due_date (invoices d' ! j) = due_date (invoices d ! j) \<and>
            currency (invoices d' ! j) = currency (invoices d ! j) \<and>
            inv_notes (invoices d' ! j) = inv_notes (invoices d ! j) \<and>
            global_tax_rate (invoices d' ! j) = global_tax_rate (invoices d ! j) \<and>
            is_recurring (invoices d' ! j) = is_recurring (invoices d ! j) \<and>
            recurrence_frequency (invoices d' ! j) = recurrence_frequency (invoices d ! j) \<and>
            recurrence_interval (invoices d' ! j) = recurrence_interval (invoices d ! j) \<and>
            recurrence_end_date (invoices d' ! j) = recurrence_end_date (invoices d ! j) \<and>
            inv_createdAt (invoices d' ! j) = inv_createdAt (invoices d ! j)"
      by (cases "j = k") (simp_all add: inv')
  qed
  have len: "length (invoices d') = length (invoices d)" by (simp add: inv')
  have rest: "users d' = users d \<and> user_settings d' = user_settings d \<and> clients d' = clients d \<and>
         payments d' = payments d @ [p]"
    by (simp add: d')
  from k(1) own inv' others have
    "\<exists>k st. k < length (invoices d) \<and> owns u i (invoices d ! k) \<and>
            invoices d' =
              (invoices d)[k := (invoices d ! k)\<lparr>inv_status := st, inv_updatedAt := now\<rparr>] \<and>
            (\<forall>j < length (invoices d). j \<noteq> k \<longrightarrow> invoices d' ! j = invoices d ! j)"
    by blast
  with rest len fields show ?thesis by blast
qed

theorem payment_frame_witness:
  "postPayment isUUIDv4 demo alice invA_id pay100 ''p2'' noon =
     Inr (demo\<lparr>payments := [payB, \<lparr> pay_id = ''p2'', invoiceId = invA_id, pay_userId = ''u1'',
                    amount = 100, payment_date = noon, payment_method = ''transfer'',
                    pay_notes = None, pay_createdAt = noon \<rparr>],
               invoices := [invA\<lparr>inv_status := PartiallyPaid, inv_updatedAt := noon\<rparr>, invB]\<rparr>,
          \<lparr> pay_id = ''p2'', invoiceId = invA_id, pay_userId = ''u1'',
                    amount = 100, payment_date = noon, payment_method = ''transfer'',
                    pay_notes = None, pay_createdAt = noon \<rparr>) \<and>
   clients (demo\<lparr>payments := [payB, \<lparr> pay_id = ''p2'', invoiceId = invA_id, pay_userId = ''u1'',
                    amount = 100, payment_date = noon, payment_method = ''transfer'',
                    pay_notes = None, pay_createdAt = noon \<rparr>],
               invoices := [invA\<lparr>inv_status := PartiallyPaid, inv_updatedAt := noon\<rparr>, invB]\<rparr>)
     = [acme, globex]"
proof -
  let ?p = "\<lparr> pay_id = ''p2'', invoiceId = invA_id, pay_userId = ''u1'',
                    amount = 100, payment_date = noon, payment_method = ''transfer'',
                    pay_notes = None, pay_createdAt = noon \<rparr>"
  let ?d' = "demo\<lparr>payments := [payB, ?p],
               invoices := [invA\<lparr>inv_status := PartiallyPaid, inv_updatedAt := noon\<rparr>, invB]\<rparr>"
  have run: "postPayment isUUIDv4 demo alice invA_id pay100 ''p2'' noon = Inr (?d', ?p)"
    by (rule demo_payment_runs)
  from payment_frame[OF run] have "clients ?d' = clients demo" by blast
  then show ?thesis using run by (simp add: demo_def)
qed

section \<open>Deleting an invoice\<close>

text \<open>
  Deleting an invoice the acting user owns, under an id the validator accepts, removes
  the user's invoices with that id and every payment whose \<open>invoiceId\<close> is that id; the
  payments with another \<open>invoiceId\<close> stay, in order. Fetching the payments of the deleted
  invoice afterwards answers 404.
\<close>

lemma delete_removes_payments_by_invoiceId:
  assumes "js_find (owns u i) (invoices d) = Some iv" and "isUUID i"
  shows "\<exists>d'. deleteInvoice isUUID d u i = Inr d' \<and>
           invoices d' = filter (\<lambda>v. \<not> owns u i v) (invoices d) \<and>
           js_find (owns u i) (invoices d') = None \<and>
           payments d' = filter (\<lambda>p. invoiceId p \<noteq> i) (payments d) \<and>
           getPayments isUUID d' u i = Inl NotFound404"
proof -
  let ?rest = "filter (\<lambda>v. \<not> owns u i v) (invoices d)"
  let ?d' = "d\<lparr>invoices := ?rest, payments := filter (\<lambda>p. invoiceId p \<noteq> i) (payments d)\<rparr>"
  from js_find_Some[OF assms(1)] have "iv \<in> set (invoices d)" "\<not> \<not> owns u i iv" by simp_all
  then have "length ?rest < length (invoices d)" by (rule length_filter_less)
  then have run: "deleteInvoice isUUID d u i = Inr ?d'"
    using assms(2) by (simp add: deleteInvoice_def Let_def)
  have gone: "js_find (owns u i) (invoices ?d') = None" by (simp add: js_find_None)
  then have "getPayments isUUID ?d' u i = Inl NotFound404"
    using assms(2) by (simp add: getPayments_def)
  with run gone show ?thesis by (intro exI[of _ ?d']) simp
qed

lemma hooli_owned: "ownedClient shared bob hooli_id = Some hooli"
  by (simp add: ownedClient_def shared_def bob_def hooli_def acme_def globex_def)

lemma bobBody_valid: "validInvoiceBody isUUIDv4 bobBody"
  by (simp add: bobBody_def valid_defs service_def uuid_examples)

lemma bobBody_keys: "b_client_id bobBody = hooli_id" "b_id bobBody = Some invB_id"
  "b_userId bobBody = None"
  by (simp_all add: bobBody_def)

text \<open>
  Claim C7 fails when two invoices carry the same id, which the key \<open>id\<close> of a request body
  brings about (line 393 spreads the body over the generated id). Bob creates an invoice
  under the id of Alice's pending invoice and deletes it: his invoice goes, Alice's two
  invoices stay, and the payment recorded on Alice's invoice is removed with it, so
  fetching the payments of her invoice yields the empty list.
\<close>

theorem delete_removes_payments_of_another_invoice:
  "postInvoice isUUIDv4 shared bob bobBody third_id noon 2025 =
     Inr (shared\<lparr>invoices := [invA, invB, newInvoice shared bob bobBody hooli third_id noon 2025]\<rparr>,
          newInvoice shared bob bobBody hooli third_id noon 2025) \<and>
   inv_id (newInvoice shared bob bobBody hooli third_id noon 2025) = invB_id \<and>
   inv_userId (newInvoice shared bob bobBody hooli third_id noon 2025) = ''u2'' \<and>
   inv_id invB = invB_id \<and> inv_userId invB = ''u1'' \<and>
   payments shared = [payB] \<and> invoiceId payB = invB_id \<and> pay_userId payB = ''u1'' \<and>
   deleteInvoice isUUIDv4
     (shared\<lparr>invoices := [invA, invB, newInvoice shared bob bobBody hooli third_id noon 2025]\<rparr>)
     bob invB_id =
     Inr (shared\<lparr>invoices := [invA, invB], payments := []\<rparr>) \<and>
   getPayments isUUIDv4 (shared\<lparr>invoices := [invA, invB], payments := []\<rparr>) alice invB_id = Inr []"
proof -
  let ?v = "newInvoice shared bob bobBody hooli third_id noon 2025"
  have post: "postInvoice isUUIDv4 shared bob bobBody third_id noon 2025 =
     Inr (shared\<lparr>invoices := [invA, invB, ?v]\<rparr>, ?v)"
    by (simp add: postInvoice_def bobBody_valid bobBody_keys hooli_owned Let_def)
       (simp add: shared_def)
  have idv: "inv_id ?v = invB_id" "inv_userId ?v = ''u2''"
    by (simp_all add: bobBody_keys orElse_def bob_def)
  have ids: "inv_id invA = invA_id" "inv_userId invA = ''u1''"
    "inv_id invB = invB_id" "inv_userId invB = ''u1''"
    by (simp_all add: invA_def invB_def)
  have pays: "payments shared = [payB]" "invoiceId payB = invB_id" "pay_userId payB = ''u1''"
    by (simp_all add: shared_def payB_def)
  have del: "deleteInvoice isUUIDv4 (shared\<lparr>invoices := [invA, invB, ?v]\<rparr>) bob invB_id =
     Inr (shared\<lparr>invoices := [invA, invB], payments := []\<rparr>)"
    by (simp add: deleteInvoice_def owns_def bobBody_keys orElse_def ids pays bob_def Let_def
        uuid_examples)
  have get: "getPayments isUUIDv4 (shared\<lparr>invoices := [invA, invB], payments := []\<rparr>) alice invB_id
             = Inr []"
    by (simp add: getPayments_def owns_def ids alice_def uuid_examples)
  from post idv ids pays del get show ?thesis by simp
qed

section \<open>The summary report\<close>

lemma foldl_addRecent:
  "foldl (addRecent c) a ps =
     foldl (\<lambda>sum p. binary64 (sum + amount p)) a (filter (\<lambda>p. c \<le> payment_date p) ps)"
  by (induction ps arbitrary: a) (simp_all add: addRecent_def)

lemma summary_fold:
  "foldl (summaryStep d now c) (out, ov, paid) ivs =
     (foldl (\<lambda>sum iv. binary64 (sum + balanceDue d iv)) out (filter (isOutstanding d) ivs),
      foldl (\<lambda>sum iv. binary64 (sum + balanceDue d iv)) ov
        (filter (\<lambda>iv. isOutstanding d iv \<and> isOverdue now iv) ivs),
      foldl (\<lambda>sum p. binary64 (sum + amount p)) paid
        (filter (\<lambda>p. c \<le> payment_date p) (concat (map (paymentsFor d) ivs))))"
  by (induction ivs arbitrary: out ov paid) (simp_all add: summaryStep_def foldl_addRecent)

text \<open>
  The overdue total never passes the outstanding total: both add the same positive
  balance, or only the outstanding total does, and rounding keeps the order.
\<close>

lemma summary_fold_overdue_le:
  assumes "foldl (summaryStep d now c) (out, ov, paid) ivs = (out', ov', paid')"
    and "ov \<le> out" and "binary64 out = out"
  shows "ov' \<le> out'"
  using assms
proof (induction ivs arbitrary: out ov paid)
  case Nil
  then show ?case by simp
next
  case (Cons iv ivs)
  obtain o1 v1 p1 where step: "summaryStep d now c (out, ov, paid) iv = (o1, v1, p1)"
    by (cases "summaryStep d now c (out, ov, paid) iv") auto
  have "v1 \<le> o1 \<and> binary64 o1 = o1"
  proof (cases "isOutstanding d iv")
    case True
    then have b: "0 < balanceDue d iv" by (simp add: isOutstanding_def)
    from step True have o1: "o1 = binary64 (out + balanceDue d iv)"
      by (simp add: summaryStep_def)
    have "out \<le> o1"
    proof -
      have "binary64 out \<le> binary64 (out + balanceDue d iv)"
        using b by (intro binary64_mono) simp
      then show ?thesis by (simp add: o1 Cons.prems(3))
    qed
    moreover have "binary64 (ov + balanceDue d iv) \<le> o1"
      unfolding o1 using Cons.prems(2) by (intro binary64_mono) simp
    moreover from step True have "v1 = binary64 (ov + balanceDue d iv) \<or> v1 = ov"
      by (auto simp: summaryStep_def split: if_splits)
    ultimately have "v1 \<le> o1" using Cons.prems(2) by auto
    then show ?thesis by (simp add: o1 binary64_idem)
  next
    case False
    with step have "o1 = out" "v1 = ov" by (simp_all add: summaryStep_def)
    then show ?thesis using Cons.prems(2,3) by simp
  qed
  moreover from Cons.prems(1) step
  have "foldl (summaryStep d now c) (o1, v1, p1) ivs = (out', ov', paid')" by simp
  ultimately show ?case using Cons.IH by blast
qed

lemmas summary_defs = getSummary_def userInvoices_def summaryStep_def isOutstanding_def isOverdue_def
  balanceDue_def paymentsFor_def sumAmounts_def addRecent_def toFixed2_def

lemma isOutstanding_iff:
  "isOutstanding d iv \<longleftrightarrow>
     inv_status iv \<in> {Pending, PartiallyPaid, Overdue} \<and> 0 < balanceDue d iv"
  by (auto simp: isOutstanding_def)

lemma isOverdue_iff:
  "isOutstanding d iv \<and> isOverdue now iv \<longleftrightarrow>
     inv_status iv \<in> {Pending, PartiallyPaid, Overdue} \<and> 0 < balanceDue d iv \<and>
     (case due_date iv of None \<Rightarrow> False | Some dd \<Rightarrow> dd < now)"
  by (auto simp: isOutstanding_def isOverdue_def)

text \<open>
  Claim C5. For every store, user, clock value and lower bound of the 30-day window the
  summary report has \<open>total_overdue \<le> total_outstanding\<close>, where \<open>total_outstanding\<close> is
  the sum, added from left to right in binary64 and rounded to two decimals at the end,
  of the balance due over the user's invoices with status \<open>pending\<close>, \<open>partially_paid\<close> or
  \<open>overdue\<close> and a positive balance, \<open>total_overdue\<close> is that sum over those of them
  whose due date is set and earlier than the clock, and the balance due of an invoice is
  its total less the sum of the payments that reference it.
\<close>

theorem overdue_le_outstanding:
  "total_overdue (getSummary d u now thirtyDaysAgo)
     \<le> total_outstanding (getSummary d u now thirtyDaysAgo) \<and>
   total_outstanding (getSummary d u now thirtyDaysAgo) =
     binary64 (toFixed2 (foldl (\<lambda>sum iv. binary64 (sum + balanceDue d iv)) 0
       (filter (\<lambda>iv. inv_status iv \<in> {Pending, PartiallyPaid, Overdue} \<and> 0 < balanceDue d iv)
          (userInvoices d u)))) \<and>
   total_overdue (getSummary d u now thirtyDaysAgo) =
     binary64 (toFixed2 (foldl (\<lambda>sum iv. binary64 (sum + balanceDue d iv)) 0
       (filter (\<lambda>iv. inv_status iv \<in> {Pending, PartiallyPaid, Overdue} \<and> 0 < balanceDue d iv \<and>
                     (case due_date iv of None \<Rightarrow> False | Some dd \<Rightarrow> dd < now))
          (userInvoices d u)))) \<and>
   (\<forall>iv. balanceDue d iv =
      binary64 (total_amount iv -
        foldl (\<lambda>sum p. binary64 (sum + amount p)) 0
          (filter (\<lambda>p. invoiceId p = inv_id iv) (payments d))))"
proof -
  obtain out ov paid where
    f: "foldl (summaryStep d now thirtyDaysAgo) (0, 0, 0) (userInvoices d u) = (out, ov, paid)"
    by (cases "foldl (summaryStep d now thirtyDaysAgo) (0, 0, 0) (userInvoices d u)") auto
  from summary_fold_overdue_le[OF f] have "ov \<le> out" by (simp add: binary64_zero)
  then have le: "binary64 (toFixed2 ov) \<le> binary64 (toFixed2 out)"
    by (rule binary64_toFixed2_mono)
  from f have out: "out = foldl (\<lambda>sum iv. binary64 (sum + balanceDue d iv)) 0
                            (filter (isOutstanding d) (userInvoices d u))"
    and ov: "ov = foldl (\<lambda>sum iv. binary64 (sum + balanceDue d iv)) 0
             (filter (\<lambda>iv. isOutstanding d iv \<and> isOverdue now iv) (userInvoices d u))"
    by (simp_all add: summary_fold)
  have bal: "\<forall>iv. balanceDue d iv =
      binary64 (total_amount iv -
        foldl (\<lambda>sum p. binary64 (sum + amount p)) 0
          (filter (\<lambda>p. invoiceId p = inv_id iv) (payments d)))"
    by (simp add: balanceDue_def paymentsFor_def sumAmounts_def)
  have fo: "filter (isOutstanding d) (userInvoices d u) =
      filter (\<lambda>iv. inv_status iv \<in> {Pending, PartiallyPaid, Overdue} \<and> 0 < balanceDue d iv)
        (userInvoices d u)"
    by (rule filter_cong[OF refl]) (simp only: isOutstanding_iff)
  have fv: "filter (\<lambda>iv. isOutstanding d iv \<and> isOverdue now iv) (userInvoices d u) =
      filter (\<lambda>iv. inv_status iv \<in> {Pending, PartiallyPaid, Overdue} \<and> 0 < balanceDue d iv \<and>
                     (case due_date iv of None \<Rightarrow> False | Some dd \<Rightarrow> dd < now))
        (userInvoices d u)"
    by (rule filter_cong[OF refl]) (simp only: isOverdue_iff)
  have 1: "total_outstanding (getSummary d u now thirtyDaysAgo) = binary64 (toFixed2 out)"
    and 2: "total_overdue (getSummary d u now thirtyDaysAgo) = binary64 (toFixed2 ov)"
    using f by (simp_all add: getSummary_def)
  show ?thesis
    unfolding 1 2 using le bal by (simp only: out ov fo fv simp_thms)
qed

lemma demo_summary:
  "getSummary demo alice noon (noon - 30 * day) =
     \<lparr> total_outstanding = 100, total_overdue = 100, paid_last_30_days = 30 \<rparr>"
  "getSummary demo alice (noon - 3 * day) (noon - 33 * day) =
     \<lparr> total_outstanding = 100, total_overdue = 100, paid_last_30_days = 30 \<rparr>"
  by (simp_all add: summary_defs demo_def invA_def invB_def payB_def alice_def noon_def day_def
      binary64_small)

theorem overdue_le_outstanding_witness:
  "getSummary demo alice noon (noon - 30 * day) =
     \<lparr> total_outstanding = 100, total_overdue = 100, paid_last_30_days = 30 \<rparr> \<and>
   total_overdue (getSummary demo alice noon (noon - 30 * day))
     \<le> total_outstanding (getSummary demo alice noon (noon - 30 * day))"
  using overdue_le_outstanding[of demo alice noon "noon - 30 * day"] demo_summary(1) by simp

text \<open>
  What \<open>paid_last_30_days\<close> is: the amounts of the payments of the user's invoices, whatever
  their status, dated at or after the lower bound, added from left to right in binary64
  and rounded to two decimals at the end. No payment is left out for being dated late.
\<close>

lemma paid_last_30_days_fold:
  "paid_last_30_days (getSummary d u now thirtyDaysAgo) =
     binary64 (toFixed2 (foldl (\<lambda>sum p. binary64 (sum + amount p)) 0
       (filter (\<lambda>p. thirtyDaysAgo \<le> payment_date p)
          (concat (map (paymentsFor d) (userInvoices d u))))))"
  by (simp add: getSummary_def summary_fold)

text \<open>
  Claim C6 fails for a payment dated after the current time. With the clock three days
  before \<open>noon\<close> (and the lower bound thirty days before that), the payment dated two
  days before \<open>noon\<close> lies after the current time; the report counts its 30.00, the window
  that ends at the current time holds nothing.
\<close>

theorem paid_last_30_days_counts_future_payment:
  "payments demo = [payB] \<and> payment_date payB = noon - 2 * day \<and>
   noon - 3 * day < payment_date payB \<and>
   paid_last_30_days (getSummary demo alice (noon - 3 * day) (noon - 33 * day)) = 30 \<and>
   spec_paid_last_30_days demo alice (noon - 3 * day) (noon - 33 * day) = 0"
proof -
  have "spec_paid_last_30_days demo alice (noon - 3 * day) (noon - 33 * day) = 0"
    by (simp add: spec_paid_last_30_days_def userInvoices_def paymentsFor_def demo_def invA_def
        invB_def payB_def alice_def noon_def day_def)
  moreover have "payments demo = [payB]" "payment_date payB = noon - 2 * day"
    "noon - 3 * day < payment_date payB"
    by (simp_all add: demo_def payB_def day_def)
  ultimately show ?thesis by (simp add: demo_summary(2))
qed

section \<open>The revenue report\<close>


lemma mkInvoice_sel [simp]:
  "inv_id (mkInvoice i c n t st) = i" "inv_userId (mkInvoice i c n t st) = cl_userId c"
  "clientId (mkInvoice i c n t st) = cl_id c" "inv_status (mkInvoice i c n t st) = st"
  "total_amount (mkInvoice i c n t st) = t"
  by (simp_all add: mkInvoice_def)

lemma mkPayment_sel [simp]:
  "invoiceId (mkPayment k i a) = i" "amount (mkPayment k i a) = a"
  "payment_date (mkPayment k i a) = noon - day"
  by (simp_all add: mkPayment_def)














end
